theory Spec2Isabelle
  imports Complex_Main "HOL-Library.Sublist"
begin

section \<open>The line-chart coordinate engine\<close>

text \<open>
  A shallow embedding of the store built by \<open>createState\<close> (the chart-lines state module),
  of \<open>useAdjustCoordinates\<close> and of \<open>useThrottle\<close>.

  A finite JavaScript number is a \<open>real\<close> (every finite double is one). A computed
  coordinate is a \<open>jsnum\<close>: a finite number, or \<open>NonFinite\<close>, which stands for \<open>NaN\<close>,
  \<open>Infinity\<close> and \<open>-Infinity\<close> together.

  The double-precision operations of the coordinate computation round their result and can
  overflow, so the theory does not fix them: the division, the product, the difference and
  \<open>String\<close> of a number are the fields of a record \<open>Runtime\<close> that every definition using
  them takes as its first argument. Whatever is proved for every \<open>Runtime\<close> holds of the
  IEEE operations of the JavaScript engine. Comparisons, \<open>Math.max\<close> and \<open>Math.ceil\<close>
  do not round and are modelled on the reals directly. Two computations outside the
  segments keep exact arithmetic, as noted where they are defined: the axis values and the
  mouse position.
\<close>

subsection \<open>Data model\<close>

datatype js_error = TypeError

text \<open>An identifier is \<open>number | string\<close>; \<open>1\<close> and \<open>"1"\<close> are different keys of a \<open>Map\<close>.\<close>

datatype ident = IdNum real | IdStr string

record Coord =
  coord_x :: real
  coord_y :: real

record Legend =
  legend_color :: string
  legend_name :: string

text \<open>A metric's \<open>id\<close> is optional; an entry of \<open>percents\<close> is a number or \<open>null\<close>.\<close>

record Metric =
  metric_id :: "ident option"
  metric_name :: string
  percents :: "real option list"

record Dataset =
  dataset_id :: ident
  dataset_name :: string
  metrics :: "Metric list"

datatype jsnum = Finite real | NonFinite

text \<open>\<open>Coord | NullableCoord\<close>: the absent point is \<open>{ x: null, y: null }\<close>.\<close>

datatype point = NullCoord | Point jsnum jsnum

record PathCoord =
  path_start :: point
  path_end :: point

record Segment =
  seg_id :: ident
  seg_name :: string
  seg_color :: string
  pointCoords :: "point list"
  pathCoords :: "PathCoord list"

record Hovered =
  hov_id :: int
  hov_name :: string

text \<open>
  In the tooltip, \<open>percent\<close> is \<open>metric.percents[id]\<close> and \<open>position\<close> is
  \<open>columnsCoords[id]\<close>: reading outside an array gives \<open>undefined\<close> (here \<open>None\<close>) and
  does not throw.
\<close>

record TooltipMetric =
  tm_name :: string
  tm_percent :: "real option option"
  tm_color :: string

record Tooltip =
  tt_name :: string
  tt_metrics :: "TooltipMetric list"
  tt_position :: "Coord option"

record InitialValue =
  columns :: nat
  columnLabels :: "string list"
  legends :: "Legend list"
  datasetLabel :: string
  datasets :: "Dataset list"

record ReactiveState =
  axisYOrigin :: "real option"
  columnsCoords :: "Coord list option"
  mouseCoords :: Coord
  hoveredSegment :: "Hovered option"
  highlightSegment :: "string option"
  filterIdDataset :: ident
  filterLegends :: "Legend list"

subsection \<open>JavaScript primitives\<close>

text \<open>\<open>xs[i]\<close>: \<open>undefined\<close> outside the array.\<close>

definition js_index :: "'a list \<Rightarrow> int \<Rightarrow> 'a option" where
  "js_index xs i = (if 0 \<le> i \<and> nat i < length xs then Some (xs ! nat i) else None)"

text \<open>
  \<open>new Map(entries)\<close> followed by \<open>get\<close>: of two entries with one key the later one
  stays.
\<close>

definition map_get :: "('k \<times> 'v) list \<Rightarrow> 'k \<Rightarrow> 'v option" where
  "map_get entries k = map_of (rev entries) k"

text \<open>
  The operations of the engine on numbers that the theory leaves open: \<open>a / b\<close> and
  \<open>a * b\<close> with a finite right operand, \<open>a - b\<close> with a finite left operand (the operands
  the source has there are the maximum, 100 and the axis origin), and \<open>String(n)\<close>.
\<close>

record Runtime =
  num_div :: "jsnum \<Rightarrow> real \<Rightarrow> jsnum"
  num_mul :: "jsnum \<Rightarrow> real \<Rightarrow> jsnum"
  num_sub :: "real \<Rightarrow> jsnum \<Rightarrow> jsnum"
  num_string :: "real \<Rightarrow> string"

text \<open>\<open>Math.max(v, ...vs)\<close>, with at least one argument; \<open>Math.ceil\<close>.\<close>

definition math_max :: "real \<Rightarrow> real list \<Rightarrow> real" where
  "math_max v vs = fold max vs v"

definition math_ceil :: "real \<Rightarrow> real" where
  "math_ceil v = of_int \<lceil>v\<rceil>"

text \<open>
  \<open>String(i)\<close> for an array index \<open>i\<close>, which is a natural number below \<open>2 ^ 32\<close>: its
  decimal digits. \<open>String\<close> of a numeric identifier is the runtime's.
\<close>

definition digit_char :: "nat \<Rightarrow> char" where
  "digit_char d = ''0123456789'' ! d"

fun string_of_nat :: "nat \<Rightarrow> string" where
  "string_of_nat n =
     (if n < 10 then [digit_char n]
      else string_of_nat (n div 10) @ [digit_char (n mod 10)])"

declare string_of_nat.simps [simp del]

definition string_of_ident :: "Runtime \<Rightarrow> ident \<Rightarrow> string" where
  "string_of_ident rt k = (case k of IdStr s \<Rightarrow> s | IdNum n \<Rightarrow> num_string rt n)"

subsection \<open>useAdjustCoordinates\<close>

datatype axis = AxisX | AxisY

text \<open>\<open>adjust\<close> is \<open>center - (coordinate / 100) * center\<close>, evaluated in that order.\<close>

definition adjust :: "Runtime \<Rightarrow> real \<Rightarrow> jsnum \<Rightarrow> jsnum" where
  "adjust rt center coordinate =
     num_sub rt center (num_mul rt (num_div rt coordinate 100) center)"

definition useAdjustCoordinates :: "Runtime \<Rightarrow> jsnum \<Rightarrow> jsnum \<Rightarrow> real \<Rightarrow> axis \<Rightarrow> point" where
  "useAdjustCoordinates rt px py center ax =
     (if ax = AxisX then Point (adjust rt center px) py else Point px (adjust rt center py))"

subsection \<open>createState: the maps, the initial state, the derived values\<close>

definition datasets_get :: "InitialValue \<Rightarrow> ident \<Rightarrow> Dataset option" where
  "datasets_get iv k = map_get (map (\<lambda>dataset. (dataset_id dataset, dataset)) (datasets iv)) k"

definition legends_get :: "InitialValue \<Rightarrow> string \<Rightarrow> Legend option" where
  "legends_get iv k = map_get (map (\<lambda>legend. (legend_name legend, legend)) (legends iv)) k"

text \<open>
  \<open>initialValue.datasets[0].id\<close> throws on an empty dataset list;
  \<open>legends.slice(0, 5)\<close> is the first five legends.
\<close>

definition createState :: "InitialValue \<Rightarrow> js_error + ReactiveState" where
  "createState iv =
     (case datasets iv of
        [] \<Rightarrow> Inl TypeError
      | dataset # _ \<Rightarrow>
          Inr \<lparr> axisYOrigin = None,
                columnsCoords = None,
                mouseCoords = \<lparr> coord_x = - 1, coord_y = - 1 \<rparr>,
                hoveredSegment = None,
                highlightSegment = None,
                filterIdDataset = dataset_id dataset,
                filterLegends = take 5 (legends iv) \<rparr>)"

definition isMetricFiltered :: "ReactiveState \<Rightarrow> string \<Rightarrow> bool" where
  "isMetricFiltered rs metricName = list_ex (\<lambda>legend. legend_name legend = metricName) (filterLegends rs)"

text \<open>
  \<open>percents.filter((percent) => percent !== null)\<close>, and the \<open>flatMap\<close> of \<open>maxValue\<close>;
  \<open>values.length ? Math.max(...values) : 100\<close> is a case distinction on the list.
\<close>

definition non_null :: "real option list \<Rightarrow> real list" where
  "non_null ps = List.map_filter (\<lambda>percent. percent) ps"

definition selected_values :: "ReactiveState \<Rightarrow> Dataset \<Rightarrow> real list" where
  "selected_values rs dataset =
     concat (map (\<lambda>metric.
        if list_ex (\<lambda>legend. legend_name legend = metric_name metric) (filterLegends rs)
        then non_null (percents metric) else []) (metrics dataset))"

definition maxValue :: "InitialValue \<Rightarrow> ReactiveState \<Rightarrow> real" where
  "maxValue iv rs =
     (case datasets_get iv (filterIdDataset rs) of
        None \<Rightarrow> 100
      | Some dataset \<Rightarrow>
          (case selected_values rs dataset of
             [] \<Rightarrow> 100
           | v # vs \<Rightarrow> math_max v vs))"

text \<open>
  The axis values are \<open>Math.ceil\<close> of \<open>max\<close>, \<open>3 * max / 4\<close>, \<open>2 * max / 4\<close> and \<open>max / 4\<close>,
  here with exact products and quotients: the doubles agree with them wherever \<open>3 * max\<close>
  and \<open>2 * max\<close> are doubles themselves, as for the default maximum 100.
\<close>

definition minValue :: real where
  "minValue = 0"

definition axisValues :: "InitialValue \<Rightarrow> ReactiveState \<Rightarrow> real list" where
  "axisValues iv rs =
     [math_ceil (maxValue iv rs),
      math_ceil ((3 * maxValue iv rs) / 4),
      math_ceil ((2 * maxValue iv rs) / 4),
      math_ceil (maxValue iv rs / 4),
      minValue]"

subsection \<open>Actions\<close>

definition updateIdDataset :: "ident \<Rightarrow> ReactiveState \<Rightarrow> ReactiveState" where
  "updateIdDataset newValue rs = rs\<lparr>filterIdDataset := newValue\<rparr>"

text \<open>
  \<open>updateFilterLegend\<close>: the set of the names in the filter, with \<open>name\<close> deleted when
  it is there and added when it is not; the new filter is \<open>state.legends\<close> filtered by it.
\<close>

definition toggled_names :: "ReactiveState \<Rightarrow> string \<Rightarrow> string set" where
  "toggled_names rs name =
     (let setLegends = set (map legend_name (filterLegends rs))
      in if name \<in> setLegends then setLegends - {name} else insert name setLegends)"

definition updateFilterLegend :: "InitialValue \<Rightarrow> string \<Rightarrow> ReactiveState \<Rightarrow> ReactiveState" where
  "updateFilterLegend iv name rs =
     rs\<lparr>filterLegends := filter (\<lambda>legend. legend_name legend \<in> toggled_names rs name) (legends iv)\<rparr>"

definition updateAxisYOrigin :: "real option \<Rightarrow> ReactiveState \<Rightarrow> ReactiveState" where
  "updateAxisYOrigin newValue rs = rs\<lparr>axisYOrigin := newValue\<rparr>"

definition updateColumnsCoords :: "Coord list option \<Rightarrow> ReactiveState \<Rightarrow> ReactiveState" where
  "updateColumnsCoords newValue rs = rs\<lparr>columnsCoords := newValue\<rparr>"

definition updateMouseCoords :: "Coord \<Rightarrow> ReactiveState \<Rightarrow> ReactiveState" where
  "updateMouseCoords newValue rs = rs\<lparr>mouseCoords := newValue\<rparr>"

definition resetMouseCoords :: "ReactiveState \<Rightarrow> ReactiveState" where
  "resetMouseCoords rs = updateMouseCoords \<lparr> coord_x = - 1, coord_y = - 1 \<rparr> rs"

definition updateHoveredSegment :: "Hovered option \<Rightarrow> ReactiveState \<Rightarrow> ReactiveState" where
  "updateHoveredSegment newValue rs = rs\<lparr>hoveredSegment := newValue\<rparr>"

definition resetHoveredSegment :: "ReactiveState \<Rightarrow> ReactiveState" where
  "resetHoveredSegment rs = updateHoveredSegment None rs"

definition updateHighlightSegment :: "string option \<Rightarrow> ReactiveState \<Rightarrow> ReactiveState" where
  "updateHighlightSegment newValue rs = rs\<lparr>highlightSegment := newValue\<rparr>"

definition resetHighlightSegment :: "ReactiveState \<Rightarrow> ReactiveState" where
  "resetHighlightSegment rs = updateHighlightSegment None rs"

subsection \<open>The computed segments\<close>

text \<open>
  \<open>Array.map\<close> with a callback that may throw: the first exception ends the loop.
\<close>

fun map_result :: "('a \<Rightarrow> js_error + 'b) \<Rightarrow> 'a list \<Rightarrow> js_error + 'b list" where
  "map_result f [] = Inr []"
| "map_result f (a # as) =
     (case f a of
        Inl e \<Rightarrow> Inl e
      | Inr b \<Rightarrow> (case map_result f as of Inl e \<Rightarrow> Inl e | Inr bs \<Rightarrow> Inr (b # bs)))"

text \<open>
  The callback of \<open>metric.percents.map\<close>. A \<open>null\<close> gives the absent point. Otherwise
  \<open>reactiveState.columnsCoords![j].x\<close> is read, which throws a \<open>TypeError\<close> when there is
  no column \<open>j\<close>; the origin is \<open>reactiveState.axisYOrigin ?? 0\<close>.
\<close>

definition normalizedPercent :: "Runtime \<Rightarrow> InitialValue \<Rightarrow> ReactiveState \<Rightarrow> real \<Rightarrow> jsnum" where
  "normalizedPercent rt iv rs percent =
     num_mul rt (num_div rt (Finite percent) (maxValue iv rs)) 100"

definition pointCoord ::
  "Runtime \<Rightarrow> InitialValue \<Rightarrow> ReactiveState \<Rightarrow> Coord list \<Rightarrow> nat \<times> real option
     \<Rightarrow> js_error + point" where
  "pointCoord rt iv rs cc jp =
     (case snd jp of
        None \<Rightarrow> Inr NullCoord
      | Some percent \<Rightarrow>
          (if fst jp < length cc
           then Inr (useAdjustCoordinates rt
                       (Finite (coord_x (cc ! fst jp)))
                       (normalizedPercent rt iv rs percent)
                       (case axisYOrigin rs of None \<Rightarrow> 0 | Some center \<Rightarrow> center)
                       AxisY)
           else Inl TypeError))"

text \<open>
  \<open>pointCoords.slice(0, -1).map((coord, j) => ({ start: coord, end: pointCoords[j + 1] }))\<close>;
  \<open>j + 1\<close> is always inside \<open>pointCoords\<close>.
\<close>

definition pathCoords_of :: "point list \<Rightarrow> PathCoord list" where
  "pathCoords_of pc =
     map (\<lambda>jc. \<lparr> path_start = snd jc, path_end = pc ! (fst jc + 1) \<rparr>) (enumerate 0 (butlast pc))"

text \<open>\<open>metric.id ?? `${i}-${dataset.id}-${dataset.name}`\<close>.\<close>

definition segment_id :: "Runtime \<Rightarrow> Dataset \<Rightarrow> nat \<Rightarrow> Metric \<Rightarrow> ident" where
  "segment_id rt dataset i metric =
     (case metric_id metric of
        Some k \<Rightarrow> k
      | None \<Rightarrow> IdStr (string_of_nat i @ ''-'' @ string_of_ident rt (dataset_id dataset)
                        @ ''-'' @ dataset_name dataset))"

text \<open>\<open>legends.get(metric.name)?.color ?? '#000000'\<close>.\<close>

definition legend_color_of :: "InitialValue \<Rightarrow> string \<Rightarrow> string" where
  "legend_color_of iv metricName =
     (case legends_get iv metricName of None \<Rightarrow> ''#000000'' | Some legend \<Rightarrow> legend_color legend)"

text \<open>
  The \<open>reduce\<close> over \<open>dataset.metrics\<close>, with the index \<open>i\<close> of the metric in the
  dataset: a metric outside the filter leaves the accumulator as it is, any other
  pushes its segment.
\<close>

fun segments_reduce ::
  "Runtime \<Rightarrow> InitialValue \<Rightarrow> ReactiveState \<Rightarrow> Coord list \<Rightarrow> Dataset \<Rightarrow> Segment list
     \<Rightarrow> (nat \<times> Metric) list \<Rightarrow> js_error + Segment list" where
  "segments_reduce rt iv rs cc dataset acc [] = Inr acc"
| "segments_reduce rt iv rs cc dataset acc (im # rest) =
     (if \<not> isMetricFiltered rs (metric_name (snd im))
      then segments_reduce rt iv rs cc dataset acc rest
      else (case map_result (pointCoord rt iv rs cc) (enumerate 0 (percents (snd im))) of
              Inl e \<Rightarrow> Inl e
            | Inr pc \<Rightarrow>
                segments_reduce rt iv rs cc dataset
                  (acc @ [\<lparr> seg_id = segment_id rt dataset (fst im) (snd im),
                             seg_name = metric_name (snd im),
                             seg_color = legend_color_of iv (metric_name (snd im)),
                             pointCoords = pc,
                             pathCoords = pathCoords_of pc \<rparr>])
                  rest))"

definition segments ::
  "Runtime \<Rightarrow> InitialValue \<Rightarrow> ReactiveState \<Rightarrow> js_error + Segment list option" where
  "segments rt iv rs =
     (case columnsCoords rs of
        None \<Rightarrow> Inr None
      | Some cc \<Rightarrow>
          (case datasets_get iv (filterIdDataset rs) of
             None \<Rightarrow> Inr None
           | Some dataset \<Rightarrow>
               (case segments_reduce rt iv rs cc dataset [] (enumerate 0 (metrics dataset)) of
                  Inl e \<Rightarrow> Inl e
                | Inr acc \<Rightarrow> Inr (Some acc))))"

subsection \<open>The computed tooltip\<close>

text \<open>Nothing in the tooltip's computation can throw, so it has no error branch.\<close>

definition tooltip :: "InitialValue \<Rightarrow> ReactiveState \<Rightarrow> Tooltip option" where
  "tooltip iv rs =
     (case columnsCoords rs of
        None \<Rightarrow> None
      | Some cc \<Rightarrow>
          (case hoveredSegment rs of
             None \<Rightarrow> None
           | Some hovered \<Rightarrow>
               (case datasets_get iv (filterIdDataset rs) of
                  None \<Rightarrow> None
                | Some dataset \<Rightarrow>
                    Some \<lparr> tt_name = hov_name hovered,
                           tt_metrics =
                             map (\<lambda>metric.
                                    \<lparr> tm_name = metric_name metric,
                                      tm_percent = js_index (percents metric) (hov_id hovered),
                                      tm_color = legend_color_of iv (metric_name metric) \<rparr>)
                                 (filter (\<lambda>metric. isMetricFiltered rs (metric_name metric))
                                         (metrics dataset)),
                           tt_position = js_index cc (hov_id hovered) \<rparr>)))"

subsection \<open>useThrottle and the mouse-move handler\<close>

text \<open>
  The closure of \<open>useThrottle\<close> keeps \<open>lastTime\<close>, which starts at 0. One call of the
  returned handler reads \<open>Date.now()\<close> (here the argument \<open>now\<close>, in milliseconds) and, when
  \<open>now - lastTime >= wait\<close>, calls \<open>fn\<close> and stores \<open>now\<close>. The wrapped function is a
  state update that returns normally, as the mouse-move callback is. The result says
  whether \<open>fn\<close> was called, and gives the closure and the state after the call.
\<close>

record 's Throttle =
  lastTime :: int
  target :: 's

definition useThrottle_init :: "'s \<Rightarrow> 's Throttle" where
  "useThrottle_init s = \<lparr> lastTime = 0, target = s \<rparr>"

definition useThrottle ::
  "('a \<Rightarrow> 's \<Rightarrow> 's) \<Rightarrow> int \<Rightarrow> int \<times> 'a \<Rightarrow> 's Throttle \<Rightarrow> bool \<times> 's Throttle" where
  "useThrottle fn wait call t =
     (if fst call - lastTime t \<ge> wait
      then (True, \<lparr> lastTime = fst call, target = fn (snd call) (target t) \<rparr>)
      else (False, t))"

text \<open>A sequence of calls of the handler, with the list of the calls' outcomes.\<close>

fun handle_calls ::
  "('a \<Rightarrow> 's \<Rightarrow> 's) \<Rightarrow> int \<Rightarrow> (int \<times> 'a) list \<Rightarrow> 's Throttle \<Rightarrow> bool list \<times> 's Throttle" where
  "handle_calls fn wait [] t = ([], t)"
| "handle_calls fn wait (call # calls) t =
     (let (invoked, t') = useThrottle fn wait call t;
          (rest, t'') = handle_calls fn wait calls t'
      in (invoked # rest, t''))"

text \<open>
  \<open>useMouseCoords\<close>: the position of the event relative to the container's bounding
  rectangle, of which only the corner \<open>x\<close>, \<open>y\<close> is read. The two differences are exact
  here; nothing below depends on the value of the mouse coordinates.
\<close>

definition useMouseCoords :: "Coord \<Rightarrow> Coord \<Rightarrow> Coord" where
  "useMouseCoords evt rectContainer =
     \<lparr> coord_x = coord_x evt - coord_x rectContainer,
       coord_y = coord_y evt - coord_y rectContainer \<rparr>"

text \<open>
  \<open>throttledMouseMove = useThrottle((evt) => store.actions.updateMouseCoords(useMouseCoords(...)), 100)\<close>;
  a mouse-move event is its time, the event's position and the container's rectangle.
\<close>

definition throttledMouseMove ::
  "(int \<times> Coord \<times> Coord) list \<Rightarrow> ReactiveState Throttle \<Rightarrow> bool list \<times> ReactiveState Throttle" where
  "throttledMouseMove evts t =
     handle_calls (\<lambda>evt rs. updateMouseCoords (useMouseCoords (fst evt) (snd evt)) rs) 100 evts t"

subsection \<open>The visible series, in the specification's words\<close>

text \<open>
  The metrics of the active dataset whose name is in the legend filter, in the order of
  the dataset, and the non-null values of those metrics.
\<close>

definition visible_metrics :: "InitialValue \<Rightarrow> ReactiveState \<Rightarrow> Metric list" where
  "visible_metrics iv rs =
     (case datasets_get iv (filterIdDataset rs) of
        None \<Rightarrow> []
      | Some dataset \<Rightarrow>
          filter (\<lambda>metric. metric_name metric \<in> legend_name ` set (filterLegends rs)) (metrics dataset))"

definition visible_values :: "InitialValue \<Rightarrow> ReactiveState \<Rightarrow> real set" where
  "visible_values iv rs = {v. \<exists>metric \<in> set (visible_metrics iv rs). Some v \<in> set (percents metric)}"

text \<open>
  The horizontal entry of a point; the absent point has none.
\<close>

fun point_x :: "point \<Rightarrow> jsnum option" where
  "point_x NullCoord = None"
| "point_x (Point px py) = Some px"

text \<open>
  \<open>segment_for\<close> says that a segment is the one the \<open>reduce\<close> pushes for the metric at
  index \<open>i\<close>; \<open>columns_cover\<close> says that every non-null entry of every given metric has a
  column, the metrics being aligned to the category columns.
\<close>

definition segment_for ::
  "Runtime \<Rightarrow> InitialValue \<Rightarrow> ReactiveState \<Rightarrow> Coord list \<Rightarrow> Dataset \<Rightarrow> nat \<times> Metric
     \<Rightarrow> Segment \<Rightarrow> bool" where
  "segment_for rt iv rs cc dataset im seg \<longleftrightarrow>
     seg_id seg = segment_id rt dataset (fst im) (snd im) \<and>
     seg_name seg = metric_name (snd im) \<and>
     seg_color seg = legend_color_of iv (metric_name (snd im)) \<and>
     map_result (pointCoord rt iv rs cc) (enumerate 0 (percents (snd im))) = Inr (pointCoords seg) \<and>
     pathCoords seg = pathCoords_of (pointCoords seg)"

definition columns_cover :: "Coord list \<Rightarrow> Metric list \<Rightarrow> bool" where
  "columns_cover cc ms \<longleftrightarrow>
     (\<forall>metric \<in> set ms. \<forall>j < length (percents metric). percents metric ! j \<noteq> None \<longrightarrow> j < length cc)"

subsection \<open>Example inputs\<close>

text \<open>
  A runtime for the examples: the exact quotient, product and difference, non-finite after
  a division by 0. The doubles give the same wherever the exact result is itself a double,
  which is so at every step of the examples below: their quotients are \<open>1/4\<close>, \<open>1/2\<close> and
  1, and everything else is an integer up to 200. \<open>String\<close> of a number is the decimal
  digits of a natural number; the examples, whose identifiers are strings, never apply it.
\<close>

fun exact_div :: "jsnum \<Rightarrow> real \<Rightarrow> jsnum" where
  "exact_div (Finite a) b = (if b = 0 then NonFinite else Finite (a / b))"
| "exact_div NonFinite b = NonFinite"

fun exact_mul :: "jsnum \<Rightarrow> real \<Rightarrow> jsnum" where
  "exact_mul (Finite a) b = Finite (a * b)"
| "exact_mul NonFinite b = NonFinite"

fun exact_sub :: "real \<Rightarrow> jsnum \<Rightarrow> jsnum" where
  "exact_sub a (Finite b) = Finite (a - b)"
| "exact_sub a NonFinite = NonFinite"

definition exact_runtime :: Runtime where
  "exact_runtime =
     \<lparr> num_div = exact_div, num_mul = exact_mul, num_sub = exact_sub,
       num_string = (\<lambda>n. string_of_nat (nat \<lfloor>n\<rfloor>)) \<rparr>"

definition ex_legends :: "Legend list" where
  "ex_legends =
     [\<lparr> legend_color = ''#1f77b4'', legend_name = ''A'' \<rparr>,
      \<lparr> legend_color = ''#ff7f0e'', legend_name = ''B'' \<rparr>,
      \<lparr> legend_color = ''#2ca02c'', legend_name = ''C'' \<rparr>]"

definition ex_flights :: Dataset where
  "ex_flights =
     \<lparr> dataset_id = IdStr ''flights'', dataset_name = ''Flights'',
       metrics =
         [\<lparr> metric_id = None, metric_name = ''A'', percents = [Some 15, None, Some 30] \<rparr>,
          \<lparr> metric_id = None, metric_name = ''B'', percents = [Some 30, Some 60, Some 15] \<rparr>,
          \<lparr> metric_id = None, metric_name = ''C'', percents = [Some 90, Some 90, Some 90] \<rparr>] \<rparr>"

definition ex_hours :: Dataset where
  "ex_hours =
     \<lparr> dataset_id = IdStr ''hours'', dataset_name = ''Hours'',
       metrics =
         [\<lparr> metric_id = None, metric_name = ''A'', percents = [None, None, None] \<rparr>,
          \<lparr> metric_id = None, metric_name = ''C'', percents = [Some 7, Some 8, Some 9] \<rparr>] \<rparr>"

definition ex_iv :: InitialValue where
  "ex_iv =
     \<lparr> columns = 3, columnLabels = [''Jan'', ''Feb'', ''Mar''], legends = ex_legends,
       datasetLabel = '''', datasets = [ex_flights, ex_hours] \<rparr>"

definition ex_rs :: ReactiveState where
  "ex_rs =
     \<lparr> axisYOrigin = Some 200,
       columnsCoords = Some [\<lparr> coord_x = 50, coord_y = 0 \<rparr>, \<lparr> coord_x = 150, coord_y = 0 \<rparr>,
                             \<lparr> coord_x = 250, coord_y = 0 \<rparr>],
       mouseCoords = \<lparr> coord_x = 150, coord_y = 20 \<rparr>,
       hoveredSegment = Some \<lparr> hov_id = 1, hov_name = ''Feb'' \<rparr>,
       highlightSegment = None,
       filterIdDataset = IdStr ''flights'',
       filterLegends = take 2 ex_legends \<rparr>"

text \<open>\<open>ex_rs\<close> with two of the three columns measured.\<close>

definition ex_rs_narrow :: ReactiveState where
  "ex_rs_narrow =
     ex_rs\<lparr>columnsCoords := Some [\<lparr> coord_x = 50, coord_y = 0 \<rparr>, \<lparr> coord_x = 150, coord_y = 0 \<rparr>]\<rparr>"

text \<open>The state \<open>createState\<close> builds for \<open>ex_iv\<close>.\<close>

definition ex_rs0 :: ReactiveState where
  "ex_rs0 =
     \<lparr> axisYOrigin = None, columnsCoords = None,
       mouseCoords = \<lparr> coord_x = - 1, coord_y = - 1 \<rparr>,
       hoveredSegment = None, highlightSegment = None,
       filterIdDataset = IdStr ''flights'',
       filterLegends = ex_legends \<rparr>"

definition ex_dup_iv :: InitialValue where
  "ex_dup_iv =
     \<lparr> columns = 3, columnLabels = [''Jan'', ''Feb'', ''Mar''],
       legends =
         [\<lparr> legend_color = ''#1f77b4'', legend_name = ''A'' \<rparr>,
          \<lparr> legend_color = ''#ff7f0e'', legend_name = ''B'' \<rparr>,
          \<lparr> legend_color = ''#1f77b4'', legend_name = ''A'' \<rparr>],
       datasetLabel = '''', datasets = [ex_flights] \<rparr>"

definition ex_dup_rs :: ReactiveState where
  "ex_dup_rs =
     \<lparr> axisYOrigin = None, columnsCoords = None,
       mouseCoords = \<lparr> coord_x = - 1, coord_y = - 1 \<rparr>,
       hoveredSegment = None, highlightSegment = None,
       filterIdDataset = IdStr ''flights'',
       filterLegends = legends ex_dup_iv \<rparr>"

definition ex_moves :: "(int \<times> Coord \<times> Coord) list" where
  "ex_moves =
     [(1000, \<lparr> coord_x = 60, coord_y = 40 \<rparr>, \<lparr> coord_x = 10, coord_y = 10 \<rparr>),
      (1050, \<lparr> coord_x = 70, coord_y = 40 \<rparr>, \<lparr> coord_x = 10, coord_y = 10 \<rparr>),
      (1100, \<lparr> coord_x = 80, coord_y = 40 \<rparr>, \<lparr> coord_x = 10, coord_y = 10 \<rparr>)]"

text \<open>
  The segments of \<open>ex_flights\<close> under \<open>ex_rs\<close> (both \<open>A\<close> and \<open>B\<close> visible, maximum 60), and
  the segment of \<open>A\<close> once \<open>B\<close> is toggled off (maximum 30).
\<close>

definition ex_seg_A :: Segment where
  "ex_seg_A =
     \<lparr> seg_id = IdStr ''0-flights-Flights'', seg_name = ''A'', seg_color = ''#1f77b4'',
       pointCoords = [Point (Finite 50) (Finite 150), NullCoord, Point (Finite 250) (Finite 100)],
       pathCoords = [\<lparr> path_start = Point (Finite 50) (Finite 150), path_end = NullCoord \<rparr>,
                     \<lparr> path_start = NullCoord, path_end = Point (Finite 250) (Finite 100) \<rparr>] \<rparr>"

definition ex_seg_B :: Segment where
  "ex_seg_B =
     \<lparr> seg_id = IdStr ''1-flights-Flights'', seg_name = ''B'', seg_color = ''#ff7f0e'',
       pointCoords = [Point (Finite 50) (Finite 100), Point (Finite 150) (Finite 0),
                      Point (Finite 250) (Finite 150)],
       pathCoords = [\<lparr> path_start = Point (Finite 50) (Finite 100),
                       path_end = Point (Finite 150) (Finite 0) \<rparr>,
                     \<lparr> path_start = Point (Finite 150) (Finite 0),
                       path_end = Point (Finite 250) (Finite 150) \<rparr>] \<rparr>"

definition ex_seg_A_rescaled :: Segment where
  "ex_seg_A_rescaled =
     \<lparr> seg_id = IdStr ''0-flights-Flights'', seg_name = ''A'', seg_color = ''#1f77b4'',
       pointCoords = [Point (Finite 50) (Finite 100), NullCoord, Point (Finite 250) (Finite 0)],
       pathCoords = [\<lparr> path_start = Point (Finite 50) (Finite 100), path_end = NullCoord \<rparr>,
                     \<lparr> path_start = NullCoord, path_end = Point (Finite 250) (Finite 0) \<rparr>] \<rparr>"

section \<open>Auxiliary facts\<close>

lemmas ex_defs = ex_iv_def ex_rs_def ex_legends_def ex_flights_def ex_hours_def

lemma list_ex_legend_name:
  "list_ex (\<lambda>legend. legend_name legend = n) ls \<longleftrightarrow> n \<in> legend_name ` set ls"
  by (auto simp: list_ex_iff)

lemma isMetricFiltered_iff:
  "isMetricFiltered rs n \<longleftrightarrow> n \<in> legend_name ` set (filterLegends rs)"
  by (simp add: isMetricFiltered_def list_ex_legend_name)

lemma set_non_null: "set (non_null ps) = {v. Some v \<in> set ps}"
  by (induction ps) (auto simp: non_null_def List.map_filter_simps split: option.splits)

lemma set_selected_values:
  "datasets_get iv (filterIdDataset rs) = Some d \<Longrightarrow> set (selected_values rs d) = visible_values iv rs"
  unfolding selected_values_def visible_values_def visible_metrics_def
  by (auto simp: set_non_null list_ex_legend_name split: if_splits)

lemma fold_max_Max: "fold max vs (v::real) = Max (insert v (set vs))"
proof (induction vs arbitrary: v)
  case Nil
  then show ?case by simp
next
  case (Cons a vs)
  have "Max (insert (max a v) (set vs)) = Max (insert v (insert a (set vs)))"
    by (cases "set vs = {}") (simp_all add: max.commute max.left_commute max.assoc)
  then show ?case using Cons by simp
qed

lemma math_max_Max: "math_max v vs = Max (set (v # vs))"
  by (simp add: math_max_def fold_max_Max)

lemma maxValue_char:
  "maxValue iv rs =
     (if datasets_get iv (filterIdDataset rs) = None \<or> visible_values iv rs = {} then 100
      else Max (visible_values iv rs))"
proof (cases "datasets_get iv (filterIdDataset rs)")
  case None
  then show ?thesis by (simp add: maxValue_def)
next
  case (Some d)
  note sv = set_selected_values [OF Some]
  show ?thesis
  proof (cases "selected_values rs d")
    case Nil
    with sv have "visible_values iv rs = {}" by simp
    with Some Nil show ?thesis by (simp add: maxValue_def)
  next
    case (Cons v vs)
    with sv have "visible_values iv rs = set (v # vs)" by simp
    with Some Cons show ?thesis by (simp add: maxValue_def math_max_Max)
  qed
qed

lemma ex_get_hours: "datasets_get ex_iv (IdStr ''hours'') = Some ex_hours"
  by (simp add: datasets_get_def map_get_def ex_iv_def ex_flights_def ex_hours_def)

lemma ex_get_flights: "datasets_get ex_iv (IdStr ''flights'') = Some ex_flights"
  by (simp add: datasets_get_def map_get_def ex_iv_def ex_flights_def ex_hours_def)

lemma subseq_take_self: "subseq (take n xs) xs"
  by (rule prefix_imp_subseq) (rule take_is_prefix)

lemma subseq_distinct: "subseq xs ys \<Longrightarrow> distinct ys \<Longrightarrow> distinct xs"
proof (induction rule: list_emb.induct)
  case (list_emb_Nil ys)
  then show ?case by simp
next
  case (list_emb_Cons xs ys y)
  then show ?case by simp
next
  case (list_emb_Cons2 x y xs ys)
  then show ?case by (auto dest: list_emb_set)
qed

lemma filterLegends_fold_subseq:
  "subseq (filterLegends rs) (legends iv) \<Longrightarrow>
   subseq (filterLegends (fold (updateFilterLegend iv) names rs)) (legends iv)"
proof (induction names arbitrary: rs)
  case Nil
  then show ?case by simp
next
  case (Cons n names)
  have "subseq (filterLegends (updateFilterLegend iv n rs)) (legends iv)"
    by (simp add: updateFilterLegend_def)
  from Cons.IH [OF this] show ?case by simp
qed

text \<open>
  So the names of the filter are names of legends in every state reached from the initial
  one by toggles, which is what toggling a legend off is stated for below.
\<close>

lemma filterLegends_names_subset:
  assumes "createState iv = Inr rs0"
  shows "legend_name ` set (filterLegends (fold (updateFilterLegend iv) names rs0))
           \<subseteq> legend_name ` set (legends iv)"
proof -
  from assms have "filterLegends rs0 = take 5 (legends iv)"
    by (auto simp: createState_def split: list.splits)
  then have "subseq (filterLegends rs0) (legends iv)"
    by (simp add: subseq_take_self)
  then have "subseq (filterLegends (fold (updateFilterLegend iv) names rs0)) (legends iv)"
    by (rule filterLegends_fold_subseq)
  then have "set (filterLegends (fold (updateFilterLegend iv) names rs0)) \<subseteq> set (legends iv)"
    by (auto dest: list_emb_set)
  then show ?thesis
    by blast
qed

lemma ex_createState0: "createState ex_iv = Inr ex_rs0"
  by (simp add: createState_def ex_iv_def ex_rs0_def ex_flights_def ex_legends_def)

lemma useThrottle_lastTime_mono:
  "0 \<le> wait \<Longrightarrow> lastTime t \<le> lastTime (snd (useThrottle fn wait call t))"
  by (simp add: useThrottle_def)

lemma handle_calls_since_lastTime:
  "0 \<le> wait \<Longrightarrow> j < length calls \<Longrightarrow> fst (handle_calls fn wait calls t) ! j \<Longrightarrow>
   wait \<le> fst (calls ! j) - lastTime t"
proof (induction calls arbitrary: t j)
  case Nil
  then show ?case by simp
next
  case (Cons call calls)
  show ?case
  proof (cases j)
    case 0
    with Cons.prems show ?thesis
      by (simp add: split_beta Let_def useThrottle_def split: if_splits)
  next
    case (Suc k)
    with Cons.prems have "fst (handle_calls fn wait calls (snd (useThrottle fn wait call t))) ! k" "k < length calls"
      by (simp_all add: split_beta Let_def)
    with Cons.IH Cons.prems(1) have "wait \<le> fst (calls ! k) - lastTime (snd (useThrottle fn wait call t))"
      by blast
    with useThrottle_lastTime_mono [OF Cons.prems(1), of t fn call] Suc show ?thesis
      by simp
  qed
qed

lemma handle_calls_spaced:
  "0 \<le> wait \<Longrightarrow> i < j \<Longrightarrow> j < length calls \<Longrightarrow>
   fst (handle_calls fn wait calls t) ! i \<Longrightarrow> fst (handle_calls fn wait calls t) ! j \<Longrightarrow>
   wait \<le> fst (calls ! j) - fst (calls ! i)"
proof (induction calls arbitrary: t i j)
  case Nil
  then show ?case by simp
next
  case (Cons call calls)
  from Cons.prems(2) obtain k where j: "j = Suc k" by (cases j) auto
  let ?t = "snd (useThrottle fn wait call t)"
  from Cons.prems j have rest_j: "fst (handle_calls fn wait calls ?t) ! k" and k: "k < length calls"
    by (simp_all add: split_beta Let_def)
  show ?case
  proof (cases i)
    case 0
    with Cons.prems have "lastTime ?t = fst call"
      by (simp add: split_beta Let_def useThrottle_def split: if_splits)
    with handle_calls_since_lastTime [OF Cons.prems(1) k rest_j] 0 j show ?thesis
      by simp
  next
    case (Suc i')
    with Cons.prems j have "fst (handle_calls fn wait calls ?t) ! i'" "i' < k"
      by (simp_all add: split_beta Let_def)
    with Cons.IH [OF Cons.prems(1) _ k _ rest_j] Suc j show ?thesis
      by simp
  qed
qed

subsection \<open>The segments\<close>

lemma map_result_Inr_iff:
  "map_result f xs = Inr ys \<longleftrightarrow> list_all2 (\<lambda>a b. f a = Inr b) xs ys"
proof (induction xs arbitrary: ys)
  case Nil
  show ?case by (cases ys) simp_all
next
  case (Cons a xs)
  show ?case
  proof (cases ys)
    case Nil
    then show ?thesis by (simp split: sum.split)
  next
    case ys: (Cons b bs)
    show ?thesis
    proof (cases "f a")
      case (Inl e)
      then show ?thesis by (simp add: ys)
    next
      case fa: (Inr b')
      show ?thesis
      proof (cases "map_result f xs")
        case (Inl e)
        with Cons.IH [of bs] fa ys show ?thesis by simp
      next
        case (Inr bs')
        with Cons.IH [of bs] Cons.IH [of bs'] fa ys show ?thesis by auto
      qed
    qed
  qed
qed

lemma map_result_succeeds:
  "(\<And>a. a \<in> set xs \<Longrightarrow> \<exists>b. f a = Inr b) \<Longrightarrow> \<exists>ys. map_result f xs = Inr ys"
proof (induction xs)
  case Nil
  then show ?case by simp
next
  case (Cons a xs)
  from Cons.prems [of a] obtain b where b: "f a = Inr b" by auto
  from Cons.IH Cons.prems obtain ys where "map_result f xs = Inr ys" by auto
  with b show ?case by simp
qed

lemma pointCoord_succeeds_iff:
  "(\<exists>p. pointCoord rt iv rs cc (j, v) = Inr p) \<longleftrightarrow> (v \<noteq> None \<longrightarrow> j < length cc)"
  by (auto simp: pointCoord_def split: option.splits)

lemma segments_reduce_sound:
  "segments_reduce rt iv rs cc dataset acc ims = Inr res \<Longrightarrow>
   \<exists>new. res = acc @ new \<and>
     list_all2 (segment_for rt iv rs cc dataset)
       (filter (\<lambda>im. isMetricFiltered rs (metric_name (snd im))) ims) new"
proof (induction ims arbitrary: acc)
  case Nil
  then show ?case by simp
next
  case (Cons im ims)
  show ?case
  proof (cases "isMetricFiltered rs (metric_name (snd im))")
    case False
    with Cons show ?thesis by simp
  next
    case True
    with Cons.prems obtain pc where
      pc: "map_result (pointCoord rt iv rs cc) (enumerate 0 (percents (snd im))) = Inr pc"
      by (auto split: sum.splits)
    let ?seg = "\<lparr> seg_id = segment_id rt dataset (fst im) (snd im),
                  seg_name = metric_name (snd im),
                  seg_color = legend_color_of iv (metric_name (snd im)),
                  pointCoords = pc,
                  pathCoords = pathCoords_of pc \<rparr>"
    from Cons.prems True pc have "segments_reduce rt iv rs cc dataset (acc @ [?seg]) ims = Inr res"
      by simp
    from Cons.IH [OF this] obtain new where
      new: "res = (acc @ [?seg]) @ new"
        "list_all2 (segment_for rt iv rs cc dataset)
           (filter (\<lambda>im. isMetricFiltered rs (metric_name (snd im))) ims) new"
      by blast
    have "segment_for rt iv rs cc dataset im ?seg"
      by (simp add: segment_for_def pc)
    with new True show ?thesis
      by (intro exI [where x = "?seg # new"]) simp
  qed
qed

lemma segments_reduce_succeeds:
  "(\<And>im. im \<in> set ims \<Longrightarrow> isMetricFiltered rs (metric_name (snd im)) \<Longrightarrow>
      \<exists>pc. map_result (pointCoord rt iv rs cc) (enumerate 0 (percents (snd im))) = Inr pc) \<Longrightarrow>
   \<exists>res. segments_reduce rt iv rs cc dataset acc ims = Inr res"
proof (induction ims arbitrary: acc)
  case Nil
  then show ?case by simp
next
  case (Cons im ims)
  show ?case
  proof (cases "isMetricFiltered rs (metric_name (snd im))")
    case False
    with Cons show ?thesis by simp
  next
    case True
    with Cons.prems [of im] obtain pc where
      "map_result (pointCoord rt iv rs cc) (enumerate 0 (percents (snd im))) = Inr pc"
      by auto
    with True Cons.IH Cons.prems show ?thesis
      by simp
  qed
qed

lemma segment_for_unique:
  "segment_for rt iv rs cc dataset im seg \<Longrightarrow> segment_for rt iv rs cc dataset im seg' \<Longrightarrow> seg' = seg"
  by (cases seg, cases seg') (simp add: segment_for_def)

lemma filter_enumerate_snd:
  "map snd (filter (\<lambda>im. P (snd im)) (enumerate n xs)) = filter P xs"
  by (induction xs arbitrary: n) simp_all

lemma pointCoords_covered:
  "(\<exists>pc. map_result (pointCoord rt iv rs cc) (enumerate 0 ps) = Inr pc)
     \<longleftrightarrow> (\<forall>j < length ps. ps ! j \<noteq> None \<longrightarrow> j < length cc)"
proof
  assume "\<exists>pc. map_result (pointCoord rt iv rs cc) (enumerate 0 ps) = Inr pc"
  then obtain pc where "list_all2 (\<lambda>a b. pointCoord rt iv rs cc a = Inr b) (enumerate 0 ps) pc"
    by (auto simp: map_result_Inr_iff)
  then have "\<forall>j < length ps. pointCoord rt iv rs cc (enumerate 0 ps ! j) = Inr (pc ! j)"
    by (auto simp: list_all2_conv_all_nth)
  then have "\<forall>j < length ps. \<exists>p. pointCoord rt iv rs cc (j, ps ! j) = Inr p"
    by (auto simp: nth_enumerate_eq)
  then show "\<forall>j < length ps. ps ! j \<noteq> None \<longrightarrow> j < length cc"
    by (simp add: pointCoord_succeeds_iff)
next
  assume c: "\<forall>j < length ps. ps ! j \<noteq> None \<longrightarrow> j < length cc"
  show "\<exists>pc. map_result (pointCoord rt iv rs cc) (enumerate 0 ps) = Inr pc"
  proof (rule map_result_succeeds)
    fix a assume "a \<in> set (enumerate 0 ps)"
    then have "fst a < length ps \<and> snd a = ps ! fst a"
      by (simp add: in_set_enumerate_eq)
    then have "a = (fst a, ps ! fst a)" "fst a < length ps"
      by (simp_all add: prod_eq_iff)
    with c pointCoord_succeeds_iff [of rt iv rs cc "fst a" "ps ! fst a"]
    show "\<exists>b. pointCoord rt iv rs cc a = Inr b" by metis
  qed
qed

lemma visible_metrics_enumerate:
  "datasets_get iv (filterIdDataset rs) = Some dataset \<Longrightarrow>
   map snd (filter (\<lambda>im. isMetricFiltered rs (metric_name (snd im))) (enumerate 0 (metrics dataset)))
     = visible_metrics iv rs"
  by (simp add: visible_metrics_def isMetricFiltered_iff
        filter_enumerate_snd [of "\<lambda>metric. metric_name metric \<in> legend_name ` set (filterLegends rs)"])

lemma segments_sound:
  assumes "segments rt iv rs = Inr (Some segs)"
  shows "\<exists>cc dataset. columnsCoords rs = Some cc \<and> datasets_get iv (filterIdDataset rs) = Some dataset \<and>
           list_all2 (segment_for rt iv rs cc dataset)
             (filter (\<lambda>im. isMetricFiltered rs (metric_name (snd im))) (enumerate 0 (metrics dataset))) segs"
proof -
  from assms obtain cc dataset where
    cc: "columnsCoords rs = Some cc" and d: "datasets_get iv (filterIdDataset rs) = Some dataset"
    and r: "segments_reduce rt iv rs cc dataset [] (enumerate 0 (metrics dataset)) = Inr segs"
    by (auto simp: segments_def split: option.splits sum.splits)
  from segments_reduce_sound [OF r] cc d show ?thesis by simp
qed

lemma segments_succeeds:
  assumes cc: "columnsCoords rs = Some cc"
    and d: "datasets_get iv (filterIdDataset rs) = Some dataset"
    and cover: "columns_cover cc (visible_metrics iv rs)"
  shows "\<exists>segs. segments rt iv rs = Inr (Some segs)"
proof -
  have "\<exists>res. segments_reduce rt iv rs cc dataset [] (enumerate 0 (metrics dataset)) = Inr res"
  proof (rule segments_reduce_succeeds)
    fix im
    assume im: "im \<in> set (enumerate 0 (metrics dataset))"
      and vis: "isMetricFiltered rs (metric_name (snd im))"
    from im have "snd im \<in> set (metrics dataset)"
      by (auto simp: in_set_enumerate_eq dest: nth_mem)
    with vis d have "snd im \<in> set (visible_metrics iv rs)"
      by (simp add: visible_metrics_def isMetricFiltered_iff)
    with cover have "\<forall>j < length (percents (snd im)). percents (snd im) ! j \<noteq> None \<longrightarrow> j < length cc"
      by (simp add: columns_cover_def)
    then show "\<exists>pc. map_result (pointCoord rt iv rs cc) (enumerate 0 (percents (snd im))) = Inr pc"
      by (simp only: pointCoords_covered)
  qed
  with cc d show ?thesis by (auto simp: segments_def)
qed

lemma segments_nth:
  assumes "segments rt iv rs = Inr (Some segs)" and "columnsCoords rs = Some cc"
  shows "length segs = length (visible_metrics iv rs)"
    and "k < length (visible_metrics iv rs) \<Longrightarrow>
         seg_name (segs ! k) = metric_name (visible_metrics iv rs ! k) \<and>
         map_result (pointCoord rt iv rs cc) (enumerate 0 (percents (visible_metrics iv rs ! k)))
           = Inr (pointCoords (segs ! k)) \<and>
         pathCoords (segs ! k) = pathCoords_of (pointCoords (segs ! k))"
proof -
  from segments_sound [OF assms(1)] assms(2) obtain dataset where
    d: "datasets_get iv (filterIdDataset rs) = Some dataset"
    and l: "list_all2 (segment_for rt iv rs cc dataset)
             (filter (\<lambda>im. isMetricFiltered rs (metric_name (snd im))) (enumerate 0 (metrics dataset))) segs"
    by auto
  let ?F = "filter (\<lambda>im. isMetricFiltered rs (metric_name (snd im))) (enumerate 0 (metrics dataset))"
  have F: "map snd ?F = visible_metrics iv rs"
    by (rule visible_metrics_enumerate [OF d])
  then have len: "length ?F = length (visible_metrics iv rs)"
    by (metis length_map)
  with l show "length segs = length (visible_metrics iv rs)"
    by (simp add: list_all2_lengthD)
  assume k: "k < length (visible_metrics iv rs)"
  with len list_all2_nthD [OF l, of k] have s: "segment_for rt iv rs cc dataset (?F ! k) (segs ! k)"
    by simp
  from k len F have "snd (?F ! k) = visible_metrics iv rs ! k"
    by (metis nth_map)
  with s show "seg_name (segs ! k) = metric_name (visible_metrics iv rs ! k) \<and>
         map_result (pointCoord rt iv rs cc) (enumerate 0 (percents (visible_metrics iv rs ! k)))
           = Inr (pointCoords (segs ! k)) \<and>
         pathCoords (segs ! k) = pathCoords_of (pointCoords (segs ! k))"
    by (simp add: segment_for_def)
qed

lemma pointCoords_nth:
  assumes "map_result (pointCoord rt iv rs cc) (enumerate 0 ps) = Inr pc"
  shows "length pc = length ps"
    and "j < length ps \<Longrightarrow> pointCoord rt iv rs cc (j, ps ! j) = Inr (pc ! j)"
proof -
  from assms have l: "list_all2 (\<lambda>a b. pointCoord rt iv rs cc a = Inr b) (enumerate 0 ps) pc"
    by (simp add: map_result_Inr_iff)
  then show "length pc = length ps"
    by (auto dest: list_all2_lengthD)
  assume "j < length ps"
  with list_all2_nthD [OF l, of j] have "pointCoord rt iv rs cc (enumerate 0 ps ! j) = Inr (pc ! j)"
    by simp
  with \<open>j < length ps\<close> show "pointCoord rt iv rs cc (j, ps ! j) = Inr (pc ! j)"
    by (simp add: nth_enumerate_eq)
qed

lemma pathCoords_of_nth:
  "length (pathCoords_of pc) = length pc - 1"
  "i < length pc - 1 \<Longrightarrow> pathCoords_of pc ! i = \<lparr> path_start = pc ! i, path_end = pc ! (i + 1) \<rparr>"
  by (simp_all add: pathCoords_of_def nth_enumerate_eq nth_butlast)

lemma visible_metrics_dataset:
  "k < length (visible_metrics iv rs) \<Longrightarrow> \<exists>dataset. datasets_get iv (filterIdDataset rs) = Some dataset"
  by (cases "datasets_get iv (filterIdDataset rs)") (simp_all add: visible_metrics_def)

lemma adjust_normalizedPercent:
  "adjust rt origin (normalizedPercent rt iv rs v) =
     num_sub rt origin
       (num_mul rt (num_div rt (num_mul rt (num_div rt (Finite v) (maxValue iv rs)) 100) 100) origin)"
  by (simp add: adjust_def normalizedPercent_def)

text \<open>
  With column coordinates set and the active dataset found, the segments are computed
  exactly when the columns cover the visible metrics; otherwise the computation throws.
\<close>

lemma segments_computed_iff:
  assumes cc: "columnsCoords rs = Some cc"
    and d: "datasets_get iv (filterIdDataset rs) = Some dataset"
  shows "(\<exists>segs. segments rt iv rs = Inr (Some segs)) \<longleftrightarrow> columns_cover cc (visible_metrics iv rs)"
proof
  assume "\<exists>segs. segments rt iv rs = Inr (Some segs)"
  then obtain segs where segs: "segments rt iv rs = Inr (Some segs)" ..
  show "columns_cover cc (visible_metrics iv rs)"
    unfolding columns_cover_def
  proof
    fix metric
    assume "metric \<in> set (visible_metrics iv rs)"
    then obtain k where k: "k < length (visible_metrics iv rs)" and m: "visible_metrics iv rs ! k = metric"
      unfolding in_set_conv_nth by blast
    from segments_nth(2) [OF segs cc k] m
    have "\<exists>pc. map_result (pointCoord rt iv rs cc) (enumerate 0 (percents metric)) = Inr pc"
      by auto
    then show "\<forall>j < length (percents metric). percents metric ! j \<noteq> None \<longrightarrow> j < length cc"
      by (simp only: pointCoords_covered)
  qed
next
  assume "columns_cover cc (visible_metrics iv rs)"
  with cc d show "\<exists>segs. segments rt iv rs = Inr (Some segs)"
    by (rule segments_succeeds)
qed

lemma segments_TypeError_iff:
  assumes cc: "columnsCoords rs = Some cc"
    and d: "datasets_get iv (filterIdDataset rs) = Some dataset"
  shows "segments rt iv rs = Inl TypeError \<longleftrightarrow> \<not> columns_cover cc (visible_metrics iv rs)"
proof -
  have "segments rt iv rs = Inl TypeError \<longleftrightarrow> \<not> (\<exists>segs. segments rt iv rs = Inr (Some segs))"
  proof (cases "segments rt iv rs")
    case (Inl e)
    then show ?thesis by (cases e) simp
  next
    case (Inr r)
    with cc d show ?thesis
      by (auto simp: segments_def split: sum.splits)
  qed
  then show ?thesis
    by (simp only: segments_computed_iff [OF cc d])
qed

subsection \<open>Toggling a legend off\<close>

lemma list_all2_filter:
  "list_all2 R xs ys \<Longrightarrow> (\<And>a b. R a b \<Longrightarrow> p a = q b) \<Longrightarrow> list_all2 R (filter p xs) (filter q ys)"
  by (induction rule: list_all2_induct) auto

lemma list_all2_map_eq:
  "list_all2 (\<lambda>a b. f a = g b) xs ys \<Longrightarrow> map f xs = map g ys"
  by (induction rule: list_all2_induct) auto

lemma list_all2_common_left:
  "list_all2 R zs xs \<Longrightarrow> list_all2 S zs ys \<Longrightarrow> list_all2 (\<lambda>a b. \<exists>c. R c a \<and> S c b) xs ys"
proof (induction arbitrary: ys rule: list_all2_induct)
  case Nil
  then show ?case by simp
next
  case (Cons z zs x xs)
  then show ?case by (cases ys) auto
qed

lemma toggle_off_isMetricFiltered:
  assumes "name \<in> legend_name ` set (filterLegends rs)"
    and "legend_name ` set (filterLegends rs) \<subseteq> legend_name ` set (legends iv)"
  shows "isMetricFiltered (updateFilterLegend iv name rs) n \<longleftrightarrow> isMetricFiltered rs n \<and> n \<noteq> name"
proof
  assume "isMetricFiltered (updateFilterLegend iv name rs) n"
  with assms(1) show "isMetricFiltered rs n \<and> n \<noteq> name"
    by (auto simp: isMetricFiltered_iff updateFilterLegend_def toggled_names_def)
next
  assume n: "isMetricFiltered rs n \<and> n \<noteq> name"
  with assms(2) obtain legend where "legend \<in> set (legends iv)" "legend_name legend = n"
    by (auto simp: isMetricFiltered_iff)
  with n assms(1) show "isMetricFiltered (updateFilterLegend iv name rs) n"
    by (force simp: isMetricFiltered_iff updateFilterLegend_def toggled_names_def)
qed

lemma pointCoord_cong:
  "maxValue iv rs' = maxValue iv rs \<Longrightarrow> axisYOrigin rs' = axisYOrigin rs \<Longrightarrow>
   pointCoord rt iv rs' cc = pointCoord rt iv rs cc"
proof (rule ext)
  fix jp
  assume "maxValue iv rs' = maxValue iv rs" and "axisYOrigin rs' = axisYOrigin rs"
  then show "pointCoord rt iv rs' cc jp = pointCoord rt iv rs cc jp"
    by (cases "snd jp") (simp_all add: pointCoord_def normalizedPercent_def)
qed

lemma pointCoord_point_x:
  "pointCoord rt iv rs' cc jp = Inr p' \<Longrightarrow> pointCoord rt iv rs cc jp = Inr p \<Longrightarrow> point_x p' = point_x p"
  by (auto simp: pointCoord_def useAdjustCoordinates_def split: option.splits if_splits)

lemma map_result_point_x:
  assumes "map_result (pointCoord rt iv rs' cc) jps = Inr pc'"
    and "map_result (pointCoord rt iv rs cc) jps = Inr pc"
  shows "map point_x pc' = map point_x pc"
proof -
  from assms have "list_all2 (\<lambda>a b. pointCoord rt iv rs' cc a = Inr b) jps pc'"
    and "list_all2 (\<lambda>a b. pointCoord rt iv rs cc a = Inr b) jps pc"
    by (simp_all add: map_result_Inr_iff)
  then have "list_all2 (\<lambda>a b. \<exists>c. pointCoord rt iv rs' cc c = Inr a \<and> pointCoord rt iv rs cc c = Inr b) pc' pc"
    by (rule list_all2_common_left)
  then have "list_all2 (\<lambda>a b. point_x a = point_x b) pc' pc"
    by (rule list_all2_mono) (auto dest: pointCoord_point_x)
  then show ?thesis
    by (rule list_all2_map_eq)
qed

lemma segment_for_related:
  assumes "segment_for rt iv rs' cc dataset im seg'" and "segment_for rt iv rs cc dataset im seg"
  shows "seg_id seg' = seg_id seg \<and> seg_name seg' = seg_name seg \<and> seg_color seg' = seg_color seg \<and>
         map point_x (pointCoords seg') = map point_x (pointCoords seg)"
  using assms map_result_point_x [of rt iv rs' cc "enumerate 0 (percents (snd im))" "pointCoords seg'" rs "pointCoords seg"]
  by (simp add: segment_for_def)

lemma toggle_off_segments_general:
  assumes vis: "\<And>n. isMetricFiltered rs' n \<longleftrightarrow> isMetricFiltered rs n \<and> n \<noteq> name"
    and cc: "columnsCoords rs' = columnsCoords rs"
    and ds: "filterIdDataset rs' = filterIdDataset rs"
    and origin: "axisYOrigin rs' = axisYOrigin rs"
    and segs: "segments rt iv rs = Inr (Some segs)"
  shows "\<exists>segs'. segments rt iv rs' = Inr (Some segs') \<and>
           list_all2 (\<lambda>seg' seg. seg_id seg' = seg_id seg \<and> seg_name seg' = seg_name seg \<and>
                        seg_color seg' = seg_color seg \<and>
                        map point_x (pointCoords seg') = map point_x (pointCoords seg))
             segs' (filter (\<lambda>seg. seg_name seg \<noteq> name) segs) \<and>
           (maxValue iv rs' = maxValue iv rs \<longrightarrow> segs' = filter (\<lambda>seg. seg_name seg \<noteq> name) segs)"
proof -
  from segments_sound [OF segs] obtain c dataset where
    c: "columnsCoords rs = Some c" and d: "datasets_get iv (filterIdDataset rs) = Some dataset"
    and l: "list_all2 (segment_for rt iv rs c dataset)
             (filter (\<lambda>im. isMetricFiltered rs (metric_name (snd im))) (enumerate 0 (metrics dataset))) segs"
    by blast
  let ?F = "filter (\<lambda>im. isMetricFiltered rs (metric_name (snd im))) (enumerate 0 (metrics dataset))"
  let ?F' = "filter (\<lambda>im. isMetricFiltered rs' (metric_name (snd im))) (enumerate 0 (metrics dataset))"
  let ?G = "filter (\<lambda>seg. seg_name seg \<noteq> name) segs"
  have F': "?F' = filter (\<lambda>im. metric_name (snd im) \<noteq> name) ?F"
    by (simp add: vis conj_commute)
  have G: "list_all2 (segment_for rt iv rs c dataset) ?F' ?G"
    unfolding F' by (rule list_all2_filter [OF l]) (simp add: segment_for_def)
  have "\<exists>res. segments_reduce rt iv rs' c dataset [] (enumerate 0 (metrics dataset)) = Inr res"
  proof (rule segments_reduce_succeeds)
    fix im
    assume "im \<in> set (enumerate 0 (metrics dataset))" and "isMetricFiltered rs' (metric_name (snd im))"
    then have "im \<in> set ?F"
      by (simp add: vis)
    then obtain i where "i < length ?F" "?F ! i = im"
      unfolding in_set_conv_nth by blast
    with list_all2_nthD [OF l, of i] have "segment_for rt iv rs c dataset im (segs ! i)"
      by simp
    then have "\<exists>pc. map_result (pointCoord rt iv rs c) (enumerate 0 (percents (snd im))) = Inr pc"
      unfolding segment_for_def by blast
    then show "\<exists>pc. map_result (pointCoord rt iv rs' c) (enumerate 0 (percents (snd im))) = Inr pc"
      by (simp only: pointCoords_covered)
  qed
  then obtain segs' where r: "segments_reduce rt iv rs' c dataset [] (enumerate 0 (metrics dataset)) = Inr segs'" ..
  with c d cc ds have s': "segments rt iv rs' = Inr (Some segs')"
    by (simp add: segments_def)
  from segments_reduce_sound [OF r] have l': "list_all2 (segment_for rt iv rs' c dataset) ?F' segs'"
    by simp
  from l' G have both: "list_all2 (\<lambda>a b. \<exists>im. segment_for rt iv rs' c dataset im a \<and> segment_for rt iv rs c dataset im b) segs' ?G"
    by (rule list_all2_common_left)
  then have rel: "list_all2 (\<lambda>seg' seg. seg_id seg' = seg_id seg \<and> seg_name seg' = seg_name seg \<and>
                        seg_color seg' = seg_color seg \<and>
                        map point_x (pointCoords seg') = map point_x (pointCoords seg)) segs' ?G"
    by (rule list_all2_mono) (auto dest: segment_for_related)
  have "segs' = ?G" if mx: "maxValue iv rs' = maxValue iv rs"
  proof -
    from pointCoord_cong [OF mx origin] have "segment_for rt iv rs' c dataset = segment_for rt iv rs c dataset"
      by (intro ext) (simp add: segment_for_def)
    with both have "list_all2 (\<lambda>a b. \<exists>im. segment_for rt iv rs c dataset im a \<and> segment_for rt iv rs c dataset im b) segs' ?G"
      by simp
    then have "list_all2 (=) segs' ?G"
      by (rule list_all2_mono) (auto dest: segment_for_unique)
    then show ?thesis
      by (simp add: list.rel_eq)
  qed
  with s' rel show ?thesis
    by blast
qed

subsection \<open>The example, evaluated\<close>

lemma string_of_nat_0: "string_of_nat 0 = ''0''"
  by (simp add: string_of_nat.simps digit_char_def)

lemma string_of_nat_1: "string_of_nat (Suc 0) = ''1''"
  by (simp add: string_of_nat.simps digit_char_def)

lemma ex_visible_metrics:
  "visible_metrics ex_iv ex_rs =
     [\<lparr> metric_id = None, metric_name = ''A'', percents = [Some 15, None, Some 30] \<rparr>,
      \<lparr> metric_id = None, metric_name = ''B'', percents = [Some 30, Some 60, Some 15] \<rparr>]"
  by (simp add: visible_metrics_def ex_get_flights ex_rs_def) (simp add: ex_flights_def ex_legends_def)

lemma ex_columnsCoords:
  "columnsCoords ex_rs = Some [\<lparr> coord_x = 50, coord_y = 0 \<rparr>, \<lparr> coord_x = 150, coord_y = 0 \<rparr>,
                             \<lparr> coord_x = 250, coord_y = 0 \<rparr>]"
  by (simp add: ex_rs_def)

lemma ex_columns_cover:
  "columns_cover [\<lparr> coord_x = 50, coord_y = 0 \<rparr>, \<lparr> coord_x = 150, coord_y = 0 \<rparr>,
                  \<lparr> coord_x = 250, coord_y = 0 \<rparr>] (visible_metrics ex_iv ex_rs)"
  by (simp add: columns_cover_def ex_visible_metrics)

lemma ex_visible_values: "visible_values ex_iv ex_rs = {15, 30, 60}"
  by (auto simp: visible_values_def ex_visible_metrics)

lemma exact_runtime_fields:
  "num_div exact_runtime = exact_div"
  "num_mul exact_runtime = exact_mul"
  "num_sub exact_runtime = exact_sub"
  by (simp_all add: exact_runtime_def)

lemma ex_rs_fields:
  "axisYOrigin ex_rs = Some 200"
  "filterIdDataset ex_rs = IdStr ''flights''"
  "filterLegends ex_rs = [\<lparr> legend_color = ''#1f77b4'', legend_name = ''A'' \<rparr>,
                          \<lparr> legend_color = ''#ff7f0e'', legend_name = ''B'' \<rparr>]"
  by (simp_all add: ex_rs_def ex_legends_def)

lemma ex_toggle_B:
  "updateFilterLegend ex_iv ''B'' ex_rs
     = ex_rs\<lparr>filterLegends := [\<lparr> legend_color = ''#1f77b4'', legend_name = ''A'' \<rparr>]\<rparr>"
  by (simp add: updateFilterLegend_def toggled_names_def ex_rs_fields) (simp add: ex_iv_def ex_legends_def)

lemma ex_toggle_A:
  "updateFilterLegend ex_iv ''A'' ex_rs
     = ex_rs\<lparr>filterLegends := [\<lparr> legend_color = ''#ff7f0e'', legend_name = ''B'' \<rparr>]\<rparr>"
  by (simp add: updateFilterLegend_def toggled_names_def ex_rs_fields) (simp add: ex_iv_def ex_legends_def)

lemma ex_maxValues:
  "maxValue ex_iv ex_rs = 60"
  "maxValue ex_iv (ex_rs\<lparr>filterLegends := [\<lparr> legend_color = ''#1f77b4'', legend_name = ''A'' \<rparr>]\<rparr>) = 30"
  "maxValue ex_iv (ex_rs\<lparr>filterLegends := [\<lparr> legend_color = ''#ff7f0e'', legend_name = ''B'' \<rparr>]\<rparr>) = 60"
  by (simp_all add: maxValue_def ex_rs_fields ex_get_flights selected_values_def ex_flights_def
        non_null_def List.map_filter_simps math_max_def)

lemma ex_legends_get:
  "legends_get ex_iv ''A'' = Some \<lparr> legend_color = ''#1f77b4'', legend_name = ''A'' \<rparr>"
  "legends_get ex_iv ''B'' = Some \<lparr> legend_color = ''#ff7f0e'', legend_name = ''B'' \<rparr>"
  by (simp_all add: legends_get_def map_get_def ex_iv_def ex_legends_def)

lemmas ex_segments_eval =
  segments_def ex_columnsCoords ex_rs_fields ex_get_flights ex_flights_def isMetricFiltered_def
  pointCoord_def normalizedPercent_def ex_maxValues useAdjustCoordinates_def adjust_def
  segment_id_def legend_color_of_def ex_legends_get string_of_ident_def exact_runtime_def string_of_nat_0
  string_of_nat_1 pathCoords_of_def enumerate_eq_zip

lemma ex_segments_before: "segments exact_runtime ex_iv ex_rs = Inr (Some [ex_seg_A, ex_seg_B])"
  by (simp add: ex_segments_eval ex_seg_A_def ex_seg_B_def)

lemma ex_segments_toggle_B:
  "segments exact_runtime ex_iv (updateFilterLegend ex_iv ''B'' ex_rs) = Inr (Some [ex_seg_A_rescaled])"
  unfolding ex_toggle_B by (simp add: ex_segments_eval ex_seg_A_rescaled_def)

section \<open>The claims\<close>

subsection \<open>Absent layout measurements\<close>

text \<open>
  Claim C5. While \<open>columnsCoords\<close> is \<open>null\<close> the computed segments are \<open>null\<close>, returned
  normally and not thrown; the computed tooltip is \<open>null\<close> while \<open>columnsCoords\<close> is
  \<open>null\<close> or no segment is hovered (the tooltip has no throwing operation at all).
\<close>

theorem absent_layout_null:
  "(columnsCoords rs = None \<longrightarrow> segments rt iv rs = Inr None \<and> tooltip iv rs = None) \<and>
   (hoveredSegment rs = None \<longrightarrow> tooltip iv rs = None)"
  by (simp add: segments_def tooltip_def split: option.splits)

theorem absent_layout_null_witness:
  "segments exact_runtime ex_iv (updateColumnsCoords None ex_rs) = Inr None \<and>
   tooltip ex_iv (updateColumnsCoords None ex_rs) = None \<and>
   tooltip ex_iv (resetHoveredSegment ex_rs) = None"
  using absent_layout_null [of "updateColumnsCoords None ex_rs" exact_runtime ex_iv]
        absent_layout_null [of "resetHoveredSegment ex_rs" exact_runtime ex_iv]
  by (simp add: updateColumnsCoords_def resetHoveredSegment_def updateHoveredSegment_def)

subsection \<open>The frame of updateFilterLegend\<close>

text \<open>
  Claim C7. \<open>updateFilterLegend(name)\<close> writes \<open>filterLegends\<close> and nothing else: the axis
  origin, the column coordinates, the mouse coordinates, the hovered segment, the highlighted
  segment and the active dataset id are the same before and after the toggle.
\<close>

theorem updateFilterLegend_frame:
  "axisYOrigin (updateFilterLegend iv name rs) = axisYOrigin rs \<and>
   columnsCoords (updateFilterLegend iv name rs) = columnsCoords rs \<and>
   mouseCoords (updateFilterLegend iv name rs) = mouseCoords rs \<and>
   hoveredSegment (updateFilterLegend iv name rs) = hoveredSegment rs \<and>
   highlightSegment (updateFilterLegend iv name rs) = highlightSegment rs \<and>
   filterIdDataset (updateFilterLegend iv name rs) = filterIdDataset rs"
  by (simp add: updateFilterLegend_def)

theorem updateFilterLegend_frame_witness:
  "filterLegends (updateFilterLegend ex_iv ''A'' ex_rs) \<noteq> filterLegends ex_rs \<and>
   axisYOrigin (updateFilterLegend ex_iv ''A'' ex_rs) = Some 200 \<and>
   hoveredSegment (updateFilterLegend ex_iv ''A'' ex_rs) = Some \<lparr> hov_id = 1, hov_name = ''Feb'' \<rparr> \<and>
   filterIdDataset (updateFilterLegend ex_iv ''A'' ex_rs) = IdStr ''flights''"
  using updateFilterLegend_frame [of ex_iv "''A''" ex_rs]
  by (simp add: ex_defs updateFilterLegend_def toggled_names_def)

subsection \<open>The normalisation maximum\<close>

text \<open>
  Claim C9. When the active dataset id is not a key of the dataset map, or no visible metric
  has a non-null value, the normalisation maximum is 100 and the axis values are
  \<open>[100, 75, 50, 25, 0]\<close>.
\<close>

theorem maxValue_default:
  assumes "datasets_get iv (filterIdDataset rs) = None
           \<or> (\<forall>metric \<in> set (visible_metrics iv rs). \<forall>percent \<in> set (percents metric). percent = None)"
  shows "maxValue iv rs = 100 \<and> axisValues iv rs = [100, 75, 50, 25, 0]"
proof -
  from assms have "datasets_get iv (filterIdDataset rs) = None \<or> visible_values iv rs = {}"
    by (auto simp: visible_values_def)
  then have m: "maxValue iv rs = 100"
    by (simp add: maxValue_char)
  have "axisValues iv rs = [100, 75, 50, 25, 0]"
    unfolding axisValues_def m by (simp add: math_ceil_def minValue_def)
  with m show ?thesis by simp
qed

theorem maxValue_default_witness:
  "maxValue ex_iv (updateIdDataset (IdStr ''hours'') ex_rs) = 100 \<and>
   axisValues ex_iv (updateIdDataset (IdStr ''hours'') ex_rs) = [100, 75, 50, 25, 0] \<and>
   maxValue ex_iv (updateIdDataset (IdStr ''regions'') ex_rs) = 100 \<and>
   axisValues ex_iv (updateIdDataset (IdStr ''regions'') ex_rs) = [100, 75, 50, 25, 0]"
proof -
  have "\<forall>metric \<in> set (visible_metrics ex_iv (updateIdDataset (IdStr ''hours'') ex_rs)).
          \<forall>percent \<in> set (percents metric). percent = None"
    by (simp add: visible_metrics_def updateIdDataset_def ex_get_hours)
       (auto simp: ex_hours_def ex_rs_def ex_legends_def)
  moreover have "datasets_get ex_iv (filterIdDataset (updateIdDataset (IdStr ''regions'') ex_rs)) = None"
    by (simp add: updateIdDataset_def datasets_get_def map_get_def ex_iv_def ex_flights_def ex_hours_def)
  ultimately show ?thesis
    using maxValue_default [of ex_iv "updateIdDataset (IdStr ''hours'') ex_rs"]
          maxValue_default [of ex_iv "updateIdDataset (IdStr ''regions'') ex_rs"]
    by blast
qed

text \<open>
  Claim C4. After \<open>updateIdDataset\<close> the normalisation maximum is the maximum of the non-null
  values of exactly those metrics of the newly selected dataset whose name is in the legend
  filter. The maximum is taken over a non-empty set: the new id names a dataset and one of
  its visible metrics has a value (claim C9 covers the other states).
\<close>

theorem updateIdDataset_maxValue:
  assumes "datasets_get iv newValue = Some dataset"
    and "\<exists>metric \<in> set (metrics dataset). metric_name metric \<in> legend_name ` set (filterLegends rs)
           \<and> (\<exists>v. Some v \<in> set (percents metric))"
  shows "maxValue iv (updateIdDataset newValue rs) =
           Max {v. \<exists>metric \<in> set (metrics dataset).
                     metric_name metric \<in> legend_name ` set (filterLegends rs) \<and> Some v \<in> set (percents metric)}"
proof -
  let ?rs = "updateIdDataset newValue rs"
  have vv: "visible_values iv ?rs =
        {v. \<exists>metric \<in> set (metrics dataset).
              metric_name metric \<in> legend_name ` set (filterLegends rs) \<and> Some v \<in> set (percents metric)}"
    using assms(1) by (auto simp: visible_values_def visible_metrics_def updateIdDataset_def)
  from assms(2) have "visible_values iv ?rs \<noteq> {}"
    unfolding vv by blast
  moreover have "datasets_get iv (filterIdDataset ?rs) \<noteq> None"
    using assms(1) by (simp add: updateIdDataset_def)
  ultimately have "maxValue iv ?rs = Max (visible_values iv ?rs)"
    by (auto simp: maxValue_char)
  then show ?thesis
    by (simp only: vv)
qed

theorem updateIdDataset_maxValue_witness:
  "maxValue ex_iv (updateIdDataset (IdStr ''flights'') (updateIdDataset (IdStr ''hours'') ex_rs)) = 60"
proof -
  let ?rs = "updateIdDataset (IdStr ''hours'') ex_rs"
  have names: "legend_name ` set (filterLegends ?rs) = {''A'', ''B''}"
    by (simp add: updateIdDataset_def ex_rs_def ex_legends_def)
  have vs: "{v. \<exists>metric \<in> set (metrics ex_flights).
              metric_name metric \<in> legend_name ` set (filterLegends ?rs) \<and> Some v \<in> set (percents metric)}
            = {15, 30, 60}"
    unfolding names by (auto simp: ex_flights_def)
  have "\<exists>metric \<in> set (metrics ex_flights). metric_name metric \<in> legend_name ` set (filterLegends ?rs)
           \<and> (\<exists>v. Some v \<in> set (percents metric))"
    unfolding names by (auto simp: ex_flights_def)
  from updateIdDataset_maxValue [OF ex_get_flights this] show ?thesis
    unfolding vs by simp
qed

subsection \<open>The legend filter after a sequence of toggles\<close>

text \<open>
  Claim C10 as stated fails when the legends list has a repeated entry: with the legends
  \<open>A, B, A\<close> the initial filter is the whole list, and after toggling \<open>B\<close> off it is
  \<open>A, A\<close>, which repeats an entry and a name.
\<close>

theorem filterLegends_counterexample:
  "createState ex_dup_iv = Inr ex_dup_rs \<and>
   filterLegends (fold (updateFilterLegend ex_dup_iv) [''B''] ex_dup_rs)
     = [\<lparr> legend_color = ''#1f77b4'', legend_name = ''A'' \<rparr>,
        \<lparr> legend_color = ''#1f77b4'', legend_name = ''A'' \<rparr>] \<and>
   \<not> distinct (filterLegends (fold (updateFilterLegend ex_dup_iv) [''B''] ex_dup_rs)) \<and>
   \<not> distinct (map legend_name (filterLegends (fold (updateFilterLegend ex_dup_iv) [''B''] ex_dup_rs)))"
  by (simp add: createState_def ex_dup_iv_def ex_dup_rs_def ex_flights_def
        updateFilterLegend_def toggled_names_def)

text \<open>
  Claim C10, amended. After any sequence of \<open>updateFilterLegend\<close> calls from the initial
  state, \<open>filterLegends\<close> is a subsequence of the legends list in the legends' order; it
  has no repeated entry whenever the legends list has none, and no repeated name whenever
  the legends list has none; and toggling a name on gives the legends list filtered by the
  enlarged name set, so the legend comes back at its own position and not at the end.
\<close>

theorem filterLegends_subseq:
  assumes "createState iv = Inr rs0"
  shows "subseq (filterLegends (fold (updateFilterLegend iv) names rs0)) (legends iv) \<and>
         (distinct (legends iv) \<longrightarrow> distinct (filterLegends (fold (updateFilterLegend iv) names rs0))) \<and>
         (distinct (map legend_name (legends iv)) \<longrightarrow>
            distinct (map legend_name (filterLegends (fold (updateFilterLegend iv) names rs0)))) \<and>
         (name \<notin> legend_name ` set (filterLegends (fold (updateFilterLegend iv) names rs0)) \<longrightarrow>
            filterLegends (updateFilterLegend iv name (fold (updateFilterLegend iv) names rs0))
              = filter (\<lambda>legend. legend_name legend = name
                          \<or> legend_name legend \<in> legend_name ` set (filterLegends (fold (updateFilterLegend iv) names rs0)))
                  (legends iv))"
proof -
  let ?F = "filterLegends (fold (updateFilterLegend iv) names rs0)"
  from assms have "filterLegends rs0 = take 5 (legends iv)"
    by (auto simp: createState_def split: list.splits)
  then have "subseq (filterLegends rs0) (legends iv)"
    by (simp add: subseq_take_self)
  then have s: "subseq ?F (legends iv)"
    by (rule filterLegends_fold_subseq)
  then have "subseq (map legend_name ?F) (map legend_name (legends iv))"
    by (rule subseq_map)
  with s have "distinct (legends iv) \<longrightarrow> distinct ?F"
    and "distinct (map legend_name (legends iv)) \<longrightarrow> distinct (map legend_name ?F)"
    by (blast intro: subseq_distinct)+
  with s show ?thesis
    by (simp add: updateFilterLegend_def toggled_names_def)
qed

theorem filterLegends_subseq_witness:
  "filterLegends (fold (updateFilterLegend ex_iv) [''B''] ex_rs0)
     = [\<lparr> legend_color = ''#1f77b4'', legend_name = ''A'' \<rparr>,
        \<lparr> legend_color = ''#2ca02c'', legend_name = ''C'' \<rparr>] \<and>
   filterLegends (updateFilterLegend ex_iv ''B'' (fold (updateFilterLegend ex_iv) [''B''] ex_rs0))
     = ex_legends \<and>
   subseq (filterLegends (fold (updateFilterLegend ex_iv) [''B''] ex_rs0)) ex_legends \<and>
   distinct (filterLegends (fold (updateFilterLegend ex_iv) [''B''] ex_rs0))"
proof -
  have d: "distinct (legends ex_iv)" and l: "legends ex_iv = ex_legends"
    by (simp_all add: ex_iv_def ex_legends_def)
  have f: "filterLegends (fold (updateFilterLegend ex_iv) [''B''] ex_rs0)
     = [\<lparr> legend_color = ''#1f77b4'', legend_name = ''A'' \<rparr>,
        \<lparr> legend_color = ''#2ca02c'', legend_name = ''C'' \<rparr>]"
    by (simp add: ex_iv_def ex_rs0_def ex_legends_def updateFilterLegend_def toggled_names_def)
  have n: "''B'' \<notin> legend_name ` set (filterLegends (fold (updateFilterLegend ex_iv) [''B''] ex_rs0))"
    unfolding f by simp
  from filterLegends_subseq [OF ex_createState0, of "[''B'']" "''B''"] d n
  have "subseq (filterLegends (fold (updateFilterLegend ex_iv) [''B''] ex_rs0)) ex_legends"
    and "distinct (filterLegends (fold (updateFilterLegend ex_iv) [''B''] ex_rs0))"
    and "filterLegends (updateFilterLegend ex_iv ''B'' (fold (updateFilterLegend ex_iv) [''B''] ex_rs0))
          = filter (\<lambda>legend. legend_name legend = ''B''
                          \<or> legend_name legend \<in> legend_name ` set (filterLegends (fold (updateFilterLegend ex_iv) [''B''] ex_rs0)))
                  (legends ex_iv)"
    unfolding l by blast+
  moreover have "filter (\<lambda>legend. legend_name legend = ''B''
                          \<or> legend_name legend \<in> legend_name ` set (filterLegends (fold (updateFilterLegend ex_iv) [''B''] ex_rs0)))
                  (legends ex_iv) = ex_legends"
    unfolding f l by (simp add: ex_legends_def)
  ultimately show ?thesis
    using f by simp
qed

subsection \<open>The tooltip payload\<close>

text \<open>
  Claim C6 as stated fails for a state whose active dataset id is not a key of the dataset
  map: with a hovered segment and column coordinates set, the tooltip is still \<open>null\<close>.
\<close>

theorem tooltip_counterexample:
  "columnsCoords (updateIdDataset (IdStr ''regions'') ex_rs) \<noteq> None \<and>
   hoveredSegment (updateIdDataset (IdStr ''regions'') ex_rs) \<noteq> None \<and>
   tooltip ex_iv (updateIdDataset (IdStr ''regions'') ex_rs) = None"
  by (simp add: updateIdDataset_def tooltip_def datasets_get_def map_get_def ex_defs)

text \<open>
  Claim C6, amended. With a hovered segment, column coordinates set and the active dataset id
  a key of the dataset map, the tooltip is the hovered name together with, for each metric of
  the dataset whose name is in the legend filter and for no other, in the dataset's order,
  the metric's name, its entry at the hovered index and the colour of the legend of that
  name (black when there is none); the position is the hovered column's coordinate.
\<close>

theorem tooltip_payload:
  assumes "columnsCoords rs = Some cc" and "hoveredSegment rs = Some hovered"
    and "datasets_get iv (filterIdDataset rs) = Some dataset"
  shows "tooltip iv rs =
           Some \<lparr> tt_name = hov_name hovered,
                  tt_metrics =
                    map (\<lambda>metric. \<lparr> tm_name = metric_name metric,
                                     tm_percent = js_index (percents metric) (hov_id hovered),
                                     tm_color = (case legends_get iv (metric_name metric) of
                                                   None \<Rightarrow> ''#000000''
                                                 | Some legend \<Rightarrow> legend_color legend) \<rparr>)
                        (filter (\<lambda>metric. metric_name metric \<in> legend_name ` set (filterLegends rs))
                                (metrics dataset)),
                  tt_position = js_index cc (hov_id hovered) \<rparr>"
  using assms by (simp add: tooltip_def isMetricFiltered_iff legend_color_of_def)

theorem tooltip_payload_witness:
  "tooltip ex_iv ex_rs =
     Some \<lparr> tt_name = ''Feb'',
            tt_metrics = [\<lparr> tm_name = ''A'', tm_percent = Some None, tm_color = ''#1f77b4'' \<rparr>,
                          \<lparr> tm_name = ''B'', tm_percent = Some (Some 60), tm_color = ''#ff7f0e'' \<rparr>],
            tt_position = Some \<lparr> coord_x = 150, coord_y = 0 \<rparr> \<rparr>"
proof -
  have a: "columnsCoords ex_rs = Some [\<lparr> coord_x = 50, coord_y = 0 \<rparr>, \<lparr> coord_x = 150, coord_y = 0 \<rparr>,
                             \<lparr> coord_x = 250, coord_y = 0 \<rparr>]"
    and b: "hoveredSegment ex_rs = Some \<lparr> hov_id = 1, hov_name = ''Feb'' \<rparr>"
    and c: "datasets_get ex_iv (filterIdDataset ex_rs) = Some ex_flights"
    by (simp_all add: ex_rs_def ex_get_flights)
  show ?thesis
    unfolding tooltip_payload [OF a b c]
    by (simp add: ex_flights_def ex_rs_def ex_legends_def ex_iv_def js_index_def legends_get_def map_get_def)
qed

subsection \<open>The throttled mouse-move handler\<close>

text \<open>
  Claim C8 as stated fails for two calls of the handler less than 100 ms apart of which the
  first was itself suppressed. With calls at 1000, 1050 and 1100 ms, the call at 1100 comes
  50 ms after the call at 1050 and does invoke the wrapped function: \<open>lastTime\<close> is the time
  of the last call that invoked it, 1000, and not the time of the last call.
\<close>

theorem throttledMouseMove_counterexample:
  "fst (throttledMouseMove ex_moves (useThrottle_init ex_rs)) = [True, False, True] \<and>
   fst (ex_moves ! 2) - fst (ex_moves ! 1) < 100"
  by (simp add: throttledMouseMove_def ex_moves_def useThrottle_init_def useThrottle_def)

text \<open>
  Claim C8, amended. If a call of the handler at time \<open>t\<close> invoked the wrapped update, a later
  call at a time \<open>t'\<close> with \<open>t' - t < 100\<close> does not invoke it: two updates of the mouse
  coordinates are at least 100 ms apart, whatever the closure's \<open>lastTime\<close> was before.
\<close>

theorem throttledMouseMove_spaced:
  assumes "i < j" and "j < length evts"
    and "fst (throttledMouseMove evts t) ! i"
    and "fst (evts ! j) - fst (evts ! i) < 100"
  shows "\<not> fst (throttledMouseMove evts t) ! j"
  using handle_calls_spaced [of 100 i j evts _ t] assms
  unfolding throttledMouseMove_def by fastforce

theorem throttledMouseMove_spaced_witness:
  "fst (throttledMouseMove ex_moves (useThrottle_init ex_rs)) ! 0 \<and>
   fst (ex_moves ! 1) - fst (ex_moves ! 0) < 100 \<and>
   \<not> fst (throttledMouseMove ex_moves (useThrottle_init ex_rs)) ! 1"
proof -
  have a: "fst (throttledMouseMove ex_moves (useThrottle_init ex_rs)) ! 0"
    by (simp add: throttledMouseMove_def ex_moves_def useThrottle_init_def useThrottle_def)
  have b: "fst (ex_moves ! 1) - fst (ex_moves ! 0) < 100" and c: "(1::nat) < length ex_moves"
    by (simp_all add: ex_moves_def)
  from throttledMouseMove_spaced [OF _ c a b] a b show ?thesis by simp
qed

subsection \<open>Point and path coordinates\<close>

text \<open>
  Claim C2 as stated fails when a visible metric has a non-null value beyond the measured
  columns: reading \<open>columnsCoords![j].x\<close> there throws, and no point of any segment is
  computed. In \<open>ex_rs_narrow\<close> the column coordinates and the axis origin are set and the
  visible metric \<open>A\<close> has the value 15 at column 0, but its value 30 at index 2 has no
  column, and \<open>segments\<close> is a \<open>TypeError\<close>.
\<close>

theorem point_coordinate_counterexample:
  "columnsCoords ex_rs_narrow
     = Some [\<lparr> coord_x = 50, coord_y = 0 \<rparr>, \<lparr> coord_x = 150, coord_y = 0 \<rparr>] \<and>
   axisYOrigin ex_rs_narrow = Some 200 \<and>
   visible_metrics ex_iv ex_rs_narrow ! 0
     = \<lparr> metric_id = None, metric_name = ''A'', percents = [Some 15, None, Some 30] \<rparr> \<and>
   segments exact_runtime ex_iv ex_rs_narrow = Inl TypeError"
proof -
  have cc: "columnsCoords ex_rs_narrow
     = Some [\<lparr> coord_x = 50, coord_y = 0 \<rparr>, \<lparr> coord_x = 150, coord_y = 0 \<rparr>]"
    and o: "axisYOrigin ex_rs_narrow = Some 200"
    and d: "datasets_get ex_iv (filterIdDataset ex_rs_narrow) = Some ex_flights"
    by (simp_all add: ex_rs_narrow_def ex_rs_fields ex_get_flights)
  have vm: "visible_metrics ex_iv ex_rs_narrow = visible_metrics ex_iv ex_rs"
    by (simp add: visible_metrics_def ex_rs_narrow_def ex_rs_fields ex_get_flights)
  have "\<not> columns_cover [\<lparr> coord_x = 50, coord_y = 0 \<rparr>, \<lparr> coord_x = 150, coord_y = 0 \<rparr>]
            (visible_metrics ex_iv ex_rs_narrow)"
    unfolding vm ex_visible_metrics columns_cover_def
    by simp (intro disjI1 exI [where x = "Suc (Suc 0)"], simp)
  then have "segments exact_runtime ex_iv ex_rs_narrow = Inl TypeError"
    by (simp add: segments_TypeError_iff [OF cc d])
  with cc o show ?thesis
    by (simp add: vm ex_visible_metrics)
qed

text \<open>
  Claim C2, amended. With column coordinates and the axis origin set, and a column for every
  non-null value of every visible metric, the segments are computed, and for a non-null
  value \<open>v\<close> at index \<open>j\<close> of the \<open>k\<close>-th visible metric the point \<open>j\<close> of the \<open>k\<close>-th segment
  has the \<open>x\<close> of column \<open>j\<close> and \<open>y = origin - ((v / max) * 100 / 100) * origin\<close>, the
  operations being the runtime's and applied in this order, where \<open>max\<close> is the maximum of
  the non-null values of the visible metrics of the active dataset.
\<close>

theorem point_coordinate:
  assumes "columnsCoords rs = Some cc"
    and "axisYOrigin rs = Some origin"
    and "columns_cover cc (visible_metrics iv rs)"
    and "k < length (visible_metrics iv rs)"
    and "j < length (percents (visible_metrics iv rs ! k))"
    and "percents (visible_metrics iv rs ! k) ! j = Some v"
  shows "\<exists>segs. segments rt iv rs = Inr (Some segs) \<and>
           length segs = length (visible_metrics iv rs) \<and>
           seg_name (segs ! k) = metric_name (visible_metrics iv rs ! k) \<and>
           j < length cc \<and>
           pointCoords (segs ! k) ! j =
             Point (Finite (coord_x (cc ! j)))
                   (num_sub rt origin
                      (num_mul rt
                         (num_div rt
                            (num_mul rt (num_div rt (Finite v) (Max (visible_values iv rs))) 100)
                            100)
                         origin))"
proof -
  let ?m = "visible_metrics iv rs ! k"
  from visible_metrics_dataset [OF assms(4)] obtain dataset where
    d: "datasets_get iv (filterIdDataset rs) = Some dataset" ..
  from segments_succeeds [OF assms(1) this assms(3)] obtain segs where
    segs: "segments rt iv rs = Inr (Some segs)" ..
  note n = segments_nth [OF segs assms(1)]
  from n(2) [OF assms(4)] have name: "seg_name (segs ! k) = metric_name ?m"
    and pc: "map_result (pointCoord rt iv rs cc) (enumerate 0 (percents ?m)) = Inr (pointCoords (segs ! k))"
    by simp_all
  from assms(4) have m: "?m \<in> set (visible_metrics iv rs)"
    by simp
  moreover from assms(5,6) have "Some v \<in> set (percents ?m)"
    by (metis nth_mem)
  ultimately have "v \<in> visible_values iv rs"
    by (auto simp: visible_values_def)
  with d have mx: "maxValue iv rs = Max (visible_values iv rs)"
    by (auto simp: maxValue_char)
  from assms(3) m assms(5,6) have j: "j < length cc"
    unfolding columns_cover_def by auto
  from pointCoords_nth(2) [OF pc assms(5)] assms(6) assms(2) j
  have "pointCoords (segs ! k) ! j =
          Point (Finite (coord_x (cc ! j))) (adjust rt origin (normalizedPercent rt iv rs v))"
    by (simp add: pointCoord_def useAdjustCoordinates_def)
  then have "pointCoords (segs ! k) ! j =
             Point (Finite (coord_x (cc ! j)))
                   (num_sub rt origin
                      (num_mul rt
                         (num_div rt
                            (num_mul rt (num_div rt (Finite v) (Max (visible_values iv rs))) 100)
                            100)
                         origin))"
    by (simp only: adjust_normalizedPercent mx)
  with segs n(1) name j show ?thesis
    by blast
qed

theorem point_coordinate_witness:
  "segments exact_runtime ex_iv ex_rs = Inr (Some [ex_seg_A, ex_seg_B]) \<and>
   percents (visible_metrics ex_iv ex_rs ! 0) ! 0 = Some 15 \<and>
   Max (visible_values ex_iv ex_rs) = 60 \<and>
   pointCoords ex_seg_A ! 0 = Point (Finite 50) (Finite 150)"
proof -
  have o: "axisYOrigin ex_rs = Some 200"
    by (simp add: ex_rs_def)
  have m: "Max (visible_values ex_iv ex_rs) = 60"
    by (simp add: ex_visible_values)
  have v: "percents (visible_metrics ex_iv ex_rs ! 0) ! 0 = Some 15"
    by (simp add: ex_visible_metrics)
  from point_coordinate [OF ex_columnsCoords o ex_columns_cover, of 0 0 15 exact_runtime] v
  have "pointCoords ex_seg_A ! 0 = Point (Finite 50) (Finite 150)"
    unfolding m by (simp add: ex_visible_metrics ex_segments_before exact_runtime_fields)
  with ex_segments_before m v show ?thesis
    by simp
qed

text \<open>
  Claim C3. In the computed segment of a visible metric, a \<open>null\<close> at index \<open>j\<close> of
  \<open>percents\<close> gives the absent point at index \<open>j\<close>. Path entry \<open>i\<close> joins the points \<open>i\<close> and
  \<open>i + 1\<close> and nothing else, so the only entries that touch index \<open>j\<close> are \<open>j - 1\<close>, whose end
  is absent, and \<open>j\<close>, whose start is absent: no path entry joins \<open>j - 1\<close> and \<open>j + 1\<close>.
\<close>

theorem null_percent_gap:
  assumes "segments rt iv rs = Inr (Some segs)"
    and "k < length (visible_metrics iv rs)"
    and "j < length (percents (visible_metrics iv rs ! k))"
    and "percents (visible_metrics iv rs ! k) ! j = None"
  shows "length segs = length (visible_metrics iv rs) \<and>
         seg_name (segs ! k) = metric_name (visible_metrics iv rs ! k) \<and>
         length (pointCoords (segs ! k)) = length (percents (visible_metrics iv rs ! k)) \<and>
         pointCoords (segs ! k) ! j = NullCoord \<and>
         length (pathCoords (segs ! k)) = length (percents (visible_metrics iv rs ! k)) - 1 \<and>
         (\<forall>i < length (pathCoords (segs ! k)).
            path_start (pathCoords (segs ! k) ! i) = pointCoords (segs ! k) ! i \<and>
            path_end (pathCoords (segs ! k) ! i) = pointCoords (segs ! k) ! (i + 1)) \<and>
         (0 < j \<longrightarrow> path_end (pathCoords (segs ! k) ! (j - 1)) = NullCoord) \<and>
         (j + 1 < length (percents (visible_metrics iv rs ! k)) \<longrightarrow>
            path_start (pathCoords (segs ! k) ! j) = NullCoord)"
proof -
  let ?m = "visible_metrics iv rs ! k"
  from segments_sound [OF assms(1)] obtain cc where cc: "columnsCoords rs = Some cc"
    by blast
  note n = segments_nth [OF assms(1) cc]
  from n(2) [OF assms(2)] have name: "seg_name (segs ! k) = metric_name ?m"
    and pc: "map_result (pointCoord rt iv rs cc) (enumerate 0 (percents ?m)) = Inr (pointCoords (segs ! k))"
    and path: "pathCoords (segs ! k) = pathCoords_of (pointCoords (segs ! k))"
    by simp_all
  note p = pointCoords_nth [OF pc]
  from p(2) [OF assms(3)] assms(4) have null: "pointCoords (segs ! k) ! j = NullCoord"
    by (simp add: pointCoord_def)
  have len: "length (pathCoords (segs ! k)) = length (percents ?m) - 1"
    by (simp add: path pathCoords_of_nth(1) p(1))
  have ends: "\<forall>i < length (pathCoords (segs ! k)).
              path_start (pathCoords (segs ! k) ! i) = pointCoords (segs ! k) ! i \<and>
              path_end (pathCoords (segs ! k) ! i) = pointCoords (segs ! k) ! (i + 1)"
    using len by (simp add: path pathCoords_of_nth p(1))
  from assms(3) have "0 < j \<longrightarrow> j - 1 < length (pathCoords (segs ! k))"
    unfolding len by arith
  with ends null have before: "0 < j \<longrightarrow> path_end (pathCoords (segs ! k) ! (j - 1)) = NullCoord"
    by auto
  from ends null len have after: "j + 1 < length (percents ?m) \<longrightarrow>
              path_start (pathCoords (segs ! k) ! j) = NullCoord"
    by auto
  from n(1) name p(1) null len ends before after show ?thesis
    by blast
qed

theorem null_percent_gap_witness:
  "segments exact_runtime ex_iv ex_rs = Inr (Some [ex_seg_A, ex_seg_B]) \<and>
   percents (visible_metrics ex_iv ex_rs ! 0) ! 1 = None \<and>
   pointCoords ex_seg_A ! 1 = NullCoord \<and>
   path_end (pathCoords ex_seg_A ! 0) = NullCoord \<and>
   path_start (pathCoords ex_seg_A ! 1) = NullCoord"
  using null_percent_gap [OF ex_segments_before, of 0 1] ex_segments_before
  by (simp add: ex_visible_metrics)

subsection \<open>Toggling a legend off\<close>

text \<open>
  Claim C1 as stated fails: the normalisation maximum is taken over the visible series, so
  removing the series that holds the maximum rescales the \<open>y\<close> of every other one. In the
  example, toggling \<open>B\<close> off lowers the maximum from 60 to 30 and moves the points of \<open>A\<close>.
\<close>

theorem toggle_off_counterexample:
  "segments exact_runtime ex_iv ex_rs = Inr (Some [ex_seg_A, ex_seg_B]) \<and>
   segments exact_runtime ex_iv (updateFilterLegend ex_iv ''B'' ex_rs) = Inr (Some [ex_seg_A_rescaled]) \<and>
   pointCoords ex_seg_A
     = [Point (Finite 50) (Finite 150), NullCoord, Point (Finite 250) (Finite 100)] \<and>
   pointCoords ex_seg_A_rescaled
     = [Point (Finite 50) (Finite 100), NullCoord, Point (Finite 250) (Finite 0)]"
  by (simp add: ex_segments_before ex_segments_toggle_B) (simp add: ex_seg_A_def ex_seg_A_rescaled_def)

text \<open>
  Claim C1, amended. In a state whose filter names are legend names, toggling a name of the
  filter off removes exactly the segments of that name: the other segments stay, in order,
  with their id, name and colour, and with the \<open>x\<close> and the gaps of their points. Their
  \<open>pointCoords\<close> and \<open>pathCoords\<close> are unchanged altogether when the toggle leaves the
  normalisation maximum as it was.
\<close>

theorem toggle_off_segments:
  assumes "name \<in> legend_name ` set (filterLegends rs)"
    and "legend_name ` set (filterLegends rs) \<subseteq> legend_name ` set (legends iv)"
    and "segments rt iv rs = Inr (Some segs)"
  shows "\<exists>segs'. segments rt iv (updateFilterLegend iv name rs) = Inr (Some segs') \<and>
           map seg_id segs' = map seg_id (filter (\<lambda>seg. seg_name seg \<noteq> name) segs) \<and>
           map seg_name segs' = map seg_name (filter (\<lambda>seg. seg_name seg \<noteq> name) segs) \<and>
           map seg_color segs' = map seg_color (filter (\<lambda>seg. seg_name seg \<noteq> name) segs) \<and>
           map (\<lambda>seg. map point_x (pointCoords seg)) segs'
             = map (\<lambda>seg. map point_x (pointCoords seg)) (filter (\<lambda>seg. seg_name seg \<noteq> name) segs) \<and>
           (maxValue iv (updateFilterLegend iv name rs) = maxValue iv rs \<longrightarrow>
              segs' = filter (\<lambda>seg. seg_name seg \<noteq> name) segs)"
proof -
  let ?rs = "updateFilterLegend iv name rs"
  let ?G = "filter (\<lambda>seg. seg_name seg \<noteq> name) segs"
  have "\<exists>segs'. segments rt iv ?rs = Inr (Some segs') \<and>
           list_all2 (\<lambda>seg' seg. seg_id seg' = seg_id seg \<and> seg_name seg' = seg_name seg \<and>
                        seg_color seg' = seg_color seg \<and>
                        map point_x (pointCoords seg') = map point_x (pointCoords seg)) segs' ?G \<and>
           (maxValue iv ?rs = maxValue iv rs \<longrightarrow> segs' = ?G)"
    by (rule toggle_off_segments_general [OF toggle_off_isMetricFiltered [OF assms(1,2)] _ _ _ assms(3)])
       (simp_all add: updateFilterLegend_def)
  then obtain segs' where s: "segments rt iv ?rs = Inr (Some segs')"
    and rel: "list_all2 (\<lambda>seg' seg. seg_id seg' = seg_id seg \<and> seg_name seg' = seg_name seg \<and>
                        seg_color seg' = seg_color seg \<and>
                        map point_x (pointCoords seg') = map point_x (pointCoords seg)) segs' ?G"
    and same: "maxValue iv ?rs = maxValue iv rs \<longrightarrow> segs' = ?G"
    by blast
  from rel have "list_all2 (\<lambda>seg' seg. seg_id seg' = seg_id seg) segs' ?G"
    by (rule list_all2_mono) simp
  then have a: "map seg_id segs' = map seg_id ?G"
    by (rule list_all2_map_eq)
  from rel have "list_all2 (\<lambda>seg' seg. seg_name seg' = seg_name seg) segs' ?G"
    by (rule list_all2_mono) simp
  then have b: "map seg_name segs' = map seg_name ?G"
    by (rule list_all2_map_eq)
  from rel have "list_all2 (\<lambda>seg' seg. seg_color seg' = seg_color seg) segs' ?G"
    by (rule list_all2_mono) simp
  then have c: "map seg_color segs' = map seg_color ?G"
    by (rule list_all2_map_eq)
  from rel have "list_all2 (\<lambda>seg' seg. map point_x (pointCoords seg') = map point_x (pointCoords seg)) segs' ?G"
    by (rule list_all2_mono) simp
  then have d: "map (\<lambda>seg. map point_x (pointCoords seg)) segs' = map (\<lambda>seg. map point_x (pointCoords seg)) ?G"
    by (rule list_all2_map_eq)
  from s a b c d same show ?thesis
    by blast
qed

theorem toggle_off_segments_witness:
  "segments exact_runtime ex_iv ex_rs = Inr (Some [ex_seg_A, ex_seg_B]) \<and>
   segments exact_runtime ex_iv (updateFilterLegend ex_iv ''A'' ex_rs) = Inr (Some [ex_seg_B])"
proof -
  have n: "''A'' \<in> legend_name ` set (filterLegends ex_rs)"
    and sub: "legend_name ` set (filterLegends ex_rs) \<subseteq> legend_name ` set (legends ex_iv)"
    by (simp_all add: ex_rs_fields) (simp add: ex_iv_def ex_legends_def)
  have mx: "maxValue ex_iv (updateFilterLegend ex_iv ''A'' ex_rs) = maxValue ex_iv ex_rs"
    by (simp add: ex_toggle_A ex_maxValues)
  have f: "filter (\<lambda>seg. seg_name seg \<noteq> ''A'') [ex_seg_A, ex_seg_B] = [ex_seg_B]"
    by (simp add: ex_seg_A_def ex_seg_B_def)
  from toggle_off_segments [OF n sub ex_segments_before] mx f ex_segments_before
  show ?thesis by auto
qed

end
